theory Spec2Isabelle
  imports Complex_Main
begin

section \<open>Strings\<close>

text \<open>
  The service is TypeScript; its strings are modelled as HOL strings holding the UTF-8
  bytes of the text.  Substring search on well-formed text gives the same answer on UTF-8
  bytes as on UTF-16 code units, which is all the service asks of its log lines.  The
  characters outside ASCII that the log lines of the service use are named here once.
\<close>

abbreviation e_acute :: string where "e_acute \<equiv> [CHR 0xC3, CHR 0xA9]"
abbreviation e_grave :: string where "e_grave \<equiv> [CHR 0xC3, CHR 0xA8]"
abbreviation E_acute :: string where "E_acute \<equiv> [CHR 0xC3, CHR 0x89]"
abbreviation a_grave :: string where "a_grave \<equiv> [CHR 0xC3, CHR 0xA0]"
abbreviation c_cedilla :: string where "c_cedilla \<equiv> [CHR 0xC3, CHR 0xA7]"
abbreviation emoji_warning :: string where
  "emoji_warning \<equiv> [CHR 0xE2, CHR 0x9A, CHR 0xA0, CHR 0xEF, CHR 0xB8, CHR 0x8F]"
abbreviation emoji_play :: string where
  "emoji_play \<equiv> [CHR 0xE2, CHR 0x96, CHR 0xB6, CHR 0xEF, CHR 0xB8, CHR 0x8F]"
abbreviation emoji_mouse :: string where
  "emoji_mouse \<equiv> [CHR 0xF0, CHR 0x9F, CHR 0x96, CHR 0xB1, CHR 0xEF, CHR 0xB8, CHR 0x8F]"
abbreviation emoji_magnifier :: string where "emoji_magnifier \<equiv> [CHR 0xF0, CHR 0x9F, CHR 0x94, CHR 0x8D]"
abbreviation emoji_cross :: string where "emoji_cross \<equiv> [CHR 0xE2, CHR 0x9D, CHR 0x8C]"
abbreviation emoji_key :: string where "emoji_key \<equiv> [CHR 0xF0, CHR 0x9F, CHR 0x94, CHR 0x91]"
abbreviation emoji_robot :: string where "emoji_robot \<equiv> [CHR 0xF0, CHR 0x9F, CHR 0xA4, CHR 0x96]"
abbreviation emoji_check :: string where "emoji_check \<equiv> [CHR 0xE2, CHR 0x9C, CHR 0x85]"
abbreviation emoji_syringe :: string where "emoji_syringe \<equiv> [CHR 0xF0, CHR 0x9F, CHR 0x92, CHR 0x89]"
abbreviation emoji_rocket :: string where "emoji_rocket \<equiv> [CHR 0xF0, CHR 0x9F, CHR 0x9A, CHR 0x80]"
abbreviation emoji_envelope :: string where "emoji_envelope \<equiv> [CHR 0xF0, CHR 0x9F, CHR 0x93, CHR 0xA7]"
abbreviation emoji_hourglass :: string where "emoji_hourglass \<equiv> [CHR 0xE2, CHR 0x8F, CHR 0xB3]"
abbreviation emoji_arrows :: string where "emoji_arrows \<equiv> [CHR 0xF0, CHR 0x9F, CHR 0x94, CHR 0x84]"
abbreviation emoji_masks :: string where "emoji_masks \<equiv> [CHR 0xF0, CHR 0x9F, CHR 0x8E, CHR 0xAD]"
abbreviation emoji_globe :: string where "emoji_globe \<equiv> [CHR 0xF0, CHR 0x9F, CHR 0x8C, CHR 0x90]"
abbreviation emoji_cookie :: string where "emoji_cookie \<equiv> [CHR 0xF0, CHR 0x9F, CHR 0x8D, CHR 0xAA]"
abbreviation emoji_memo :: string where "emoji_memo \<equiv> [CHR 0xF0, CHR 0x9F, CHR 0x93, CHR 0x9D]"
abbreviation emoji_lock :: string where "emoji_lock \<equiv> [CHR 0xF0, CHR 0x9F, CHR 0x94, CHR 0x92]"
abbreviation emoji_siren :: string where "emoji_siren \<equiv> [CHR 0xF0, CHR 0x9F, CHR 0x9A, CHR 0xA8]"
abbreviation emoji_link :: string where "emoji_link \<equiv> [CHR 0xF0, CHR 0x9F, CHR 0x94, CHR 0x97]"
abbreviation emoji_floppy :: string where "emoji_floppy \<equiv> [CHR 0xF0, CHR 0x9F, CHR 0x92, CHR 0xBE]"
abbreviation newline :: string where "newline \<equiv> [CHR 0x0A]"

text \<open>\<open>s.startsWith(p)\<close> and \<open>s.includes(p)\<close>.\<close>

fun startsWith :: "string \<Rightarrow> string \<Rightarrow> bool" where
  "startsWith s [] = True"
| "startsWith [] (p # ps) = False"
| "startsWith (c # cs) (p # ps) = (c = p \<and> startsWith cs ps)"

fun stringIncludes :: "string \<Rightarrow> string \<Rightarrow> bool" where
  "stringIncludes [] p = (p = [])"
| "stringIncludes (c # cs) p = (startsWith (c # cs) p \<or> stringIncludes cs p)"

text \<open>A non-negative integer in a template literal: its decimal digits.\<close>

function decimal :: "nat \<Rightarrow> string" where
  "decimal n =
     (if n < 10 then [''0123456789'' ! n]
      else decimal (n div 10) @ [''0123456789'' ! (n mod 10)])"
  by pat_completeness auto
termination
  by (relation "measure id") auto

declare decimal.simps [simp del]

text \<open>
  A regular expression of the service that is a chain of literals joined by \<open>.*\<close>, with
  the flag \<open>i\<close>: the literals are given in lower case, \<open>.\<close> is any character but a line
  terminator (\<open>\n\<close>, \<open>\r\<close>, U+2028, U+2029), and \<open>test\<close> looks for a match at any
  position.  The flag folds ASCII letters only: no character outside ASCII matches an
  ASCII letter without the flag \<open>u\<close>.
\<close>

definition lowerCase :: "char \<Rightarrow> char" where
  "lowerCase c =
     (case map_of (zip ''ABCDEFGHIJKLMNOPQRSTUVWXYZ'' ''abcdefghijklmnopqrstuvwxyz'') c of
        Some l \<Rightarrow> l
      | None \<Rightarrow> c)"

fun startsWithIgnoreCase :: "string \<Rightarrow> string \<Rightarrow> bool" where
  "startsWithIgnoreCase s [] = True"
| "startsWithIgnoreCase [] (p # ps) = False"
| "startsWithIgnoreCase (c # cs) (p # ps) = (lowerCase c = p \<and> startsWithIgnoreCase cs ps)"

definition lineTerminatorAt :: "string \<Rightarrow> bool" where
  "lineTerminatorAt s =
     (startsWith s [CHR 0x0A] \<or> startsWith s [CHR 0x0D]
      \<or> startsWith s [CHR 0xE2, CHR 0x80, CHR 0xA8] \<or> startsWith s [CHR 0xE2, CHR 0x80, CHR 0xA9])"

fun matchParts :: "string list \<Rightarrow> string \<Rightarrow> bool"
  and matchGap :: "string list \<Rightarrow> string \<Rightarrow> bool" where
  "matchParts [] s = True"
| "matchParts (p # ps) s = (startsWithIgnoreCase s p \<and> matchGap ps (drop (length p) s))"
| "matchGap [] s = True"
| "matchGap (p # ps) [] = matchParts (p # ps) []"
| "matchGap (p # ps) (c # cs) =
     (matchParts (p # ps) (c # cs) \<or> (\<not> lineTerminatorAt (c # cs) \<and> matchGap (p # ps) cs))"

fun regexTest :: "string list \<Rightarrow> string \<Rightarrow> bool" where
  "regexTest parts [] = matchParts parts []"
| "regexTest parts (c # cs) = (matchParts parts (c # cs) \<or> regexTest parts cs)"

text \<open>
  White space as \<open>\s\<close> and \<open>trim\<close> see it, each character by its UTF-8 bytes: the ASCII
  ones, U+00A0, U+1680, U+2000 to U+200A, U+2028, U+2029, U+202F, U+205F, U+3000, U+FEFF.
\<close>

definition whiteSpace :: "string list" where
  "whiteSpace =
     [[CHR 0x09], [CHR 0x0A], [CHR 0x0B], [CHR 0x0C], [CHR 0x0D], [CHR 0x20],
      [CHR 0xC2, CHR 0xA0], [CHR 0xE1, CHR 0x9A, CHR 0x80],
      [CHR 0xE2, CHR 0x80, CHR 0x80], [CHR 0xE2, CHR 0x80, CHR 0x81],
      [CHR 0xE2, CHR 0x80, CHR 0x82], [CHR 0xE2, CHR 0x80, CHR 0x83],
      [CHR 0xE2, CHR 0x80, CHR 0x84], [CHR 0xE2, CHR 0x80, CHR 0x85],
      [CHR 0xE2, CHR 0x80, CHR 0x86], [CHR 0xE2, CHR 0x80, CHR 0x87],
      [CHR 0xE2, CHR 0x80, CHR 0x88], [CHR 0xE2, CHR 0x80, CHR 0x89],
      [CHR 0xE2, CHR 0x80, CHR 0x8A], [CHR 0xE2, CHR 0x80, CHR 0xA8],
      [CHR 0xE2, CHR 0x80, CHR 0xA9], [CHR 0xE2, CHR 0x80, CHR 0xAF],
      [CHR 0xE2, CHR 0x81, CHR 0x9F], [CHR 0xE3, CHR 0x80, CHR 0x80],
      [CHR 0xEF, CHR 0xBB, CHR 0xBF]]"

fun dropLeading :: "string list \<Rightarrow> string \<Rightarrow> string" where
  "dropLeading ws [] = []"
| "dropLeading ws (c # cs) =
     (case find (startsWith (c # cs)) ws of
        None \<Rightarrow> c # cs
      | Some w \<Rightarrow> dropLeading ws (drop (length w - 1) cs))"

definition trim :: "string \<Rightarrow> string" where
  "trim s = rev (dropLeading (map rev whiteSpace) (rev (dropLeading whiteSpace s)))"

text \<open>
  \<open>content.match(/https:\/\/replit\.com\/verify[^\s"<>]*/)\<close>: the first place where the
  literal stands, and from there every character up to white space, a double quote or an
  angle bracket.
\<close>

fun linkTail :: "string \<Rightarrow> string" where
  "linkTail [] = []"
| "linkTail (c # cs) =
     (if list_ex (startsWith (c # cs)) whiteSpace \<or> c = CHR 0x22 \<or> c = CHR ''<'' \<or> c = CHR ''>''
      then [] else c # linkTail cs)"

fun matchVerificationLink :: "string \<Rightarrow> string option" where
  "matchVerificationLink [] = None"
| "matchVerificationLink (c # cs) =
     (if startsWith (c # cs) ''https://replit.com/verify''
      then Some (''https://replit.com/verify'' @
                 linkTail (drop (length ''https://replit.com/verify'') (c # cs)))
      else matchVerificationLink cs)"

text \<open>
  \<open>s.substring(0, n)\<close> counts UTF-16 code units.  A character of one, two or three bytes
  is one unit; a character of four bytes is two units, a surrogate pair.  Where the cut
  falls inside a pair the high surrogate stays alone; it is written here with the three
  bytes the scheme of UTF-8 gives its code.
\<close>

definition highSurrogate :: "string \<Rightarrow> string" where
  "highSurrogate bs =
     (let b = (\<lambda>i. if i < length bs then of_char (bs ! i) else (0::nat));
          cp = (b 0 mod 8) * 262144 + (b 1 mod 64) * 4096 + (b 2 mod 64) * 64 + b 3 mod 64;
          h = 55296 + (cp - 65536) div 1024
      in [char_of (224 + h div 4096), char_of (128 + (h div 64) mod 64), char_of (128 + h mod 64)])"

definition byteCount :: "char \<Rightarrow> nat" where
  "byteCount c =
     (let b = of_char c :: nat
      in if 240 \<le> b then 4 else if 224 \<le> b then 3 else if 192 \<le> b then 2 else 1)"

fun substring0 :: "nat \<Rightarrow> string \<Rightarrow> string" where
  "substring0 0 s = []"
| "substring0 (Suc n) [] = []"
| "substring0 (Suc n) (c # cs) =
     (if byteCount c = 4 then
        (if n = 0 then highSurrogate (c # take 3 cs)
         else c # take 3 cs @ substring0 (n - 1) (drop 3 cs))
      else c # take (byteCount c - 1) cs @ substring0 n (drop (byteCount c - 1) cs))"

text \<open>\<open>Math.floor(Math.random() * width) + base\<close>, for a draw \<open>r\<close> of \<open>Math.random()\<close>.\<close>

definition randomDelay :: "real \<Rightarrow> nat \<Rightarrow> nat \<Rightarrow> nat" where
  "randomDelay r width base = nat \<lfloor>r * real width\<rfloor> + base"

section \<open>Data model\<close>

text \<open>
  \<open>AutomationStep\<close> and \<open>AutomationTask\<close> of the shared schema.  The fields \<open>id\<close> and
  \<open>status\<close> occur in both; they carry the record's name here (\<open>stepId\<close>, \<open>taskId\<close>).
  Optional fields are options, timestamps are the milliseconds of \<open>Date.now()\<close>.
\<close>

datatype Status = pending | running | completed | failed

datatype Provider = replit | github | google | other

record AutomationStep =
  stepId :: string
  stepLabel :: string
  stepStatus :: Status

record AutomationTask =
  taskId :: string
  provider :: Provider
  email :: string
  password :: "string option"
  status :: Status
  steps :: "AutomationStep list"
  screenshots :: "string list"
  logs :: "string list"
  debugLogs :: "string list"
  errorMessages :: "string list"
  createdAt :: nat
  completedAt :: "nat option"

text \<open>A browser cookie as Playwright reports it, and the row written for it.\<close>

record Cookie =
  cookieName :: string
  cookieValue :: string
  cookieDomain :: string
  cookiePath :: string
  cookieExpires :: real
  cookieHttpOnly :: bool
  cookieSecure :: bool
  cookieSameSite :: string

record CookieRecord =
  account_id :: string
  rec_name :: string
  rec_value :: string
  rec_domain :: string
  rec_path :: string
  rec_expires :: "int option"
  http_only :: bool
  secure :: bool
  same_site :: "string option"

record Message =
  messageId :: string
  fromAddress :: string
  textContent :: "string option"
  htmlContent :: "string option"

section \<open>The outside world\<close>

text \<open>
  Every awaited call that leaves the process (the browser, the page, the database) is a
  call site.  Consecutive page operations with no write to the task between them form one
  call site.  The environment says which call sites reject, and with what message; the
  trace of events records, in order, the calls the service makes.
\<close>

datatype CallSite =
    ChromiumLaunch | NewContext | NewPage | AddInitScript | GotoSignup | IdleBehaviour
  | FindEmailButton | ClickEmailButton | FindEmailInput | TypeEmail | FindPasswordInput
  | FocusPassword | TypePassword | BeforeSubmit | FindCreateButton | MissingButtonScreenshot | ClickCreate
  | AfterSubmit | ReadPage
  | FindSitekey | SolverRecaptcha | InjectToken | CaptchaWait | FindCreateButtonAgain
  | ClickCreateAgain | ResubmitWait | ContextCookies | SessionCookies | FindErrorElements
  | GotoVerification | FinalCookies | VerifyCloseContext | VerifyCloseBrowser
  | CatchCloseContext | CatchCloseBrowser
  | ClosePage | CloseContext | CloseBrowser

datatype Event =
    Call CallSite
  | Sleep nat
  | Visit string
  | Notify nat AutomationTask
  | StatusWrite Status
  | ReadCookieFile string
  | WriteCookieFile string "Cookie list"
  | GetMessages string
  | InsertAccount string "string option" bool
  | InsertCookies "CookieRecord list"
  | Tick AutomationTask

text \<open>
  What an insert into the database answers: the call rejects, or it resolves with an error,
  or it resolves with the row.
\<close>

datatype 'a DbResult = Rejected string | DbError string | DbOk 'a

text \<open>
  A subscriber callback is called with the task.  It either returns (\<open>None\<close>) or throws
  (\<open>Some message\<close>); what else it does with the task it was shown is its own affair.
\<close>

type_synonym UpdateCallback = "AutomationTask \<Rightarrow> string option"

record WorkerPool =
  maxWorkers :: int
  activeWorkers :: int
  queue :: "nat list"

text \<open>
  The service object.  \<open>captchaSolver\<close> says whether a solver was built from
  \<open>CAPTCHA_API_KEY\<close>; what the solver answers belongs to the environment.
\<close>

record AccountAutomationService =
  tasks :: "string \<rightharpoonup> AutomationTask"
  updateCallbacks :: "string \<rightharpoonup> UpdateCallback list"
  workerPool :: WorkerPool
  debugMode :: bool
  captchaSolver :: bool

definition MAX_RETRIES :: nat where "MAX_RETRIES = 3"

definition MAX_WORKERS :: int where "MAX_WORKERS = 3"

text \<open>
  What one run works on: the task object, the three local variables of an attempt
  (\<open>True\<close> when the variable holds an object, \<open>False\<close> when it is \<open>null\<close>), the cookie
  files of the session store, the interval timer of \<open>runAutomation\<close>, and the trace.

  The timer is \<open>None\<close> when no interval is set.  While one is set it holds, for every
  length the trace may have, the number of times the interval fires during an await that
  is recorded at that length.
\<close>

record State =
  task :: AutomationTask
  browser :: bool
  browserContext :: bool
  page :: bool
  cookieFiles :: "string \<rightharpoonup> Cookie list"
  timer :: "(nat \<Rightarrow> nat) option"
  events :: "Event list"

text \<open>
  The environment of one attempt: which call sites reject, what \<open>Math.random()\<close>
  draws where a draw reaches the task, and what the calls that resolve answer.
\<close>

record AttemptEnv =
  rejects :: "CallSite \<Rightarrow> string option"
  viewportWidth :: nat
  viewportHeight :: nat
  pauseRandom :: real
  initialDelayRandom :: real
  waitTimeRandom :: real
  loadCookiesError :: "string option"
  writeCookiesError :: "string option"
  screenshot1 :: string
  emailPasswordButton :: bool
  emailInput :: bool
  passwordInput :: bool
  createButton :: bool
  screenshotMissing :: string
  screenshot2 :: string
  pageContent :: string
  currentUrl :: string
  sitekey :: "string option"
  solverToken :: string
  createButtonAgain :: bool
  newUrl :: string
  contextCookies :: "Cookie list"
  sessionCookies :: "Cookie list"
  errorElements :: "string option list"
  mailbox :: "nat \<Rightarrow> Message list"
  messageDetails :: "nat \<Rightarrow> string \<Rightarrow> Message option"
  finalCookies :: "Cookie list"
  accountInsert :: "string DbResult"
  cookiesInsert :: "unit DbResult"

text \<open>
  The environment of one task: the identifier \<open>nanoid()\<close> draws, the clock at the three
  readings of \<open>Date.now()\<close>, the cookie files on disk when the task is created, the draw
  of the pause before each attempt, how often the interval of \<open>runAutomation\<close> fires
  during each await, and the environment of each attempt.
\<close>

record RunEnv =
  newId :: string
  createdClock :: nat
  completedClock :: nat
  fatalClock :: nat
  cookieDir :: "string \<rightharpoonup> Cookie list"
  backoffRandom :: "nat \<Rightarrow> real"
  timerFires :: "nat \<Rightarrow> nat"
  attemptEnv :: "nat \<Rightarrow> AttemptEnv"

section \<open>Statements\<close>

text \<open>
  A statement runs on a state and completes normally, with a \<open>return\<close>, or with a
  \<open>throw\<close>; the state it leaves is kept in all three cases, as the writes of a
  TypeScript function are when it throws.
\<close>

datatype 'r completion = Normal | Return 'r | Throw string

type_synonym 'r stmt = "State \<Rightarrow> 'r completion \<times> State"

definition skip :: "'r stmt" where
  "skip s = (Normal, s)"

definition assign :: "(State \<Rightarrow> State) \<Rightarrow> 'r stmt" where
  "assign f s = (Normal, f s)"

definition throw :: "string \<Rightarrow> 'r stmt" where
  "throw e s = (Throw e, s)"

definition returns :: "'r \<Rightarrow> 'r stmt" where
  "returns v s = (Return v, s)"

fun block :: "'r stmt list \<Rightarrow> 'r stmt" where
  "block [] s = (Normal, s)"
| "block (c # cs) s = (case c s of (Normal, s') \<Rightarrow> block cs s' | (k, s') \<Rightarrow> (k, s'))"

declare block.simps [simp del]

definition tryCatch :: "'r stmt \<Rightarrow> (string \<Rightarrow> 'r stmt) \<Rightarrow> 'r stmt" where
  "tryCatch body handler s =
     (case body s of (Throw e, s') \<Rightarrow> handler e s' | (k, s') \<Rightarrow> (k, s'))"

text \<open>
  The trace.  An event that stands for an await gives the event loop to the timers: while
  the interval of \<open>runAutomation\<close> is set, it fires as often as the environment says, and
  each firing calls \<open>notifyUpdate\<close> with the task as it stands (\<open>Tick\<close>).  What a
  subscriber throws there is thrown in the timer and does not reach the run.
\<close>

fun asynchronous :: "Event \<Rightarrow> bool" where
  "asynchronous (Call site) = True"
| "asynchronous (Sleep ms) = True"
| "asynchronous (GetMessages mail) = True"
| "asynchronous (InsertAccount mail pw verified) = True"
| "asynchronous (InsertCookies rows) = True"
| "asynchronous e = False"

definition recorded :: "Event \<Rightarrow> State \<Rightarrow> State" where
  "recorded e s =
     (case timer s of
        None \<Rightarrow> s\<lparr>events := events s @ [e]\<rparr>
      | Some fires \<Rightarrow>
          if asynchronous e
          then s\<lparr>events := events s @ e # replicate (fires (length (events s))) (Tick (task s))\<rparr>
          else s\<lparr>events := events s @ [e]\<rparr>)"

definition record_event :: "Event \<Rightarrow> 'r stmt" where
  "record_event e = assign (recorded e)"

text \<open>\<open>try { body } finally { fin }\<close>.\<close>

definition tryFinally :: "'r stmt \<Rightarrow> 'r stmt \<Rightarrow> 'r stmt" where
  "tryFinally body fin s =
     (case body s of
        (k, s') \<Rightarrow> (case fin s' of (Normal, s'') \<Rightarrow> (k, s'') | (k', s'') \<Rightarrow> (k', s'')))"

definition onTask :: "(AutomationTask \<Rightarrow> AutomationTask) \<Rightarrow> 'r stmt" where
  "onTask f = assign (\<lambda>s. s\<lparr>task := f (task s)\<rparr>)"

text \<open>\<open>await new Promise(resolve => setTimeout(resolve, ms))\<close>.\<close>

definition sleep :: "nat \<Rightarrow> 'r stmt" where
  "sleep ms = record_event (Sleep ms)"

text \<open>A conditional on the state, and a read of the task.\<close>

definition ifSet :: "(State \<Rightarrow> bool) \<Rightarrow> 'r stmt \<Rightarrow> 'r stmt" where
  "ifSet cond c s = (if cond s then c s else (Normal, s))"

definition withTask :: "(AutomationTask \<Rightarrow> 'r stmt) \<Rightarrow> 'r stmt" where
  "withTask f s = f (task s) s"

text \<open>
  A call of a function of the service.  \<open>call\<close> drops what the callee returns;
  \<open>callThen\<close> hands it on, with \<open>d\<close> standing for \<open>undefined\<close> when the callee ends
  without a \<open>return\<close>.  What the callee throws, the caller throws.
\<close>

definition call :: "'a stmt \<Rightarrow> 'r stmt" where
  "call m s = (case m s of (Throw e, s') \<Rightarrow> (Throw e, s') | (k, s') \<Rightarrow> (Normal, s'))"

definition callThen :: "'a stmt \<Rightarrow> 'a \<Rightarrow> ('a \<Rightarrow> 'r stmt) \<Rightarrow> 'r stmt" where
  "callThen m d k s =
     (case m s of
        (Return v, s') \<Rightarrow> k v s'
      | (Normal, s') \<Rightarrow> k d s'
      | (Throw e, s') \<Rightarrow> (Throw e, s'))"

text \<open>
  An awaited call at a call site: the call is made, then it rejects or resolves.
  \<open>awaitQuietly\<close> is the call followed by \<open>.catch(() => {})\<close>.
\<close>

definition await :: "AttemptEnv \<Rightarrow> CallSite \<Rightarrow> 'r stmt" where
  "await env site =
     block [record_event (Call site),
            (case rejects env site of None \<Rightarrow> skip | Some e \<Rightarrow> throw e)]"

definition awaitQuietly :: "CallSite \<Rightarrow> 'r stmt" where
  "awaitQuietly site = record_event (Call site)"

section \<open>The task state machine\<close>

text \<open>\<open>onTaskUpdate\<close>, \<open>notifyUpdate\<close>, \<open>addLog\<close>, \<open>addDebugLog\<close>, \<open>updateStep\<close>.\<close>

definition onTaskUpdate ::
  "string \<Rightarrow> UpdateCallback \<Rightarrow> AccountAutomationService \<Rightarrow> AccountAutomationService" where
  "onTaskUpdate tid callback svc =
     (let cbs = (case updateCallbacks svc tid of None \<Rightarrow> [] | Some l \<Rightarrow> l)
      in svc\<lparr>updateCallbacks := (updateCallbacks svc)(tid \<mapsto> cbs @ [callback])\<rparr>)"

definition callbacksOf :: "AccountAutomationService \<Rightarrow> string \<Rightarrow> UpdateCallback list" where
  "callbacksOf svc tid = (case updateCallbacks svc tid of None \<Rightarrow> [] | Some l \<Rightarrow> l)"

text \<open>
  \<open>callbacks.forEach(cb => cb(task))\<close>: the callbacks are called in the order of their
  registration; one that throws ends the iteration.
\<close>

fun forEachCallback :: "UpdateCallback list \<Rightarrow> nat \<Rightarrow> 'r stmt" where
  "forEachCallback [] i s = (Normal, s)"
| "forEachCallback (cb # cbs) i s =
     (let s' = s\<lparr>events := events s @ [Notify i (task s)]\<rparr>
      in case cb (task s) of
           Some e \<Rightarrow> (Throw e, s')
         | None \<Rightarrow> forEachCallback cbs (Suc i) s')"

definition notifyUpdate :: "AccountAutomationService \<Rightarrow> 'r stmt" where
  "notifyUpdate svc s = forEachCallback (callbacksOf svc (taskId (task s))) 0 s"

text \<open>The calls one \<open>notifyUpdate\<close> makes when the task is \<open>t\<close> and no callback throws.\<close>

definition notifications :: "AccountAutomationService \<Rightarrow> AutomationTask \<Rightarrow> Event list" where
  "notifications svc t = map (\<lambda>i. Notify i t) [0 ..< length (callbacksOf svc (taskId t))]"

definition addLog :: "AccountAutomationService \<Rightarrow> string \<Rightarrow> 'r stmt" where
  "addLog svc line = block [onTask (\<lambda>t. t\<lparr>logs := logs t @ [line]\<rparr>), notifyUpdate svc]"

definition addDebugLog :: "AccountAutomationService \<Rightarrow> string \<Rightarrow> 'r stmt" where
  "addDebugLog svc line =
     (if debugMode svc then onTask (\<lambda>t. t\<lparr>debugLogs := debugLogs t @ [line]\<rparr>) else skip)"

text \<open>\<open>task.steps.find(s => s.id === stepId)\<close>, then the write to the step found.\<close>

fun setStepStatus :: "string \<Rightarrow> Status \<Rightarrow> AutomationStep list \<Rightarrow> AutomationStep list" where
  "setStepStatus sid st [] = []"
| "setStepStatus sid st (x # xs) =
     (if stepId x = sid then x\<lparr>stepStatus := st\<rparr> # xs else x # setStepStatus sid st xs)"

definition updateStep :: "string \<Rightarrow> Status \<Rightarrow> string option \<Rightarrow> 'r stmt" where
  "updateStep sid st line =
     block [
       onTask (\<lambda>t. t\<lparr>steps := setStepStatus sid st (steps t)\<rparr>),
       (case line of
          None \<Rightarrow> skip
        | Some l \<Rightarrow> if l \<noteq> [] then onTask (\<lambda>t. t\<lparr>logs := logs t @ [l]\<rparr>) else skip)]"

text \<open>The assignment \<open>task.status = st\<close>; the trace keeps the writes to \<open>status\<close>.\<close>

definition setStatus :: "Status \<Rightarrow> 'r stmt" where
  "setStatus st = block [onTask (\<lambda>t. t\<lparr>status := st\<rparr>), record_event (StatusWrite st)]"

text \<open>A service whose subscribers never throw.\<close>

definition quietSubscribers :: "AccountAutomationService \<Rightarrow> bool" where
  "quietSubscribers svc =
     (\<forall>tid cbs. updateCallbacks svc tid = Some cbs \<longrightarrow> (\<forall>cb \<in> set cbs. \<forall>t. cb t = None))"

section \<open>The session store\<close>

text \<open>
  \<open>saveCookies\<close> and \<open>loadCookies\<close>: one JSON file per task identifier.  Both catch
  whatever goes wrong and report it on the console only.
\<close>

definition saveCookies :: "AttemptEnv \<Rightarrow> 'r stmt" where
  "saveCookies env =
     tryCatch
       (block [
          await env SessionCookies,
          (case writeCookiesError env of Some e \<Rightarrow> throw e | None \<Rightarrow> skip),
          withTask (\<lambda>t. assign (\<lambda>s. s\<lparr>cookieFiles := (cookieFiles s)(taskId t \<mapsto> sessionCookies env)\<rparr>)),
          withTask (\<lambda>t. record_event (WriteCookieFile (taskId t) (sessionCookies env)))])
       (\<lambda>e. skip)"

definition loadCookies :: "AttemptEnv \<Rightarrow> bool stmt" where
  "loadCookies env =
     tryCatch
       (block [
          withTask (\<lambda>t. record_event (ReadCookieFile (taskId t))),
          withTask (\<lambda>t. ifSet (\<lambda>s. cookieFiles s (taskId t) \<noteq> None)
            (block [
               (case loadCookiesError env of Some e \<Rightarrow> throw e | None \<Rightarrow> skip),
               returns True])),
          returns False])
       (\<lambda>e. returns False)"

section \<open>The captcha resolver\<close>

definition solveCaptcha :: "AccountAutomationService \<Rightarrow> AttemptEnv \<Rightarrow> (string option) stmt" where
  "solveCaptcha svc env =
     (if \<not> captchaSolver svc then
        block [
          addDebugLog svc (emoji_warning @ ''  2Captcha non configur'' @ e_acute @ '' - d'' @ e_acute @ ''finir CAPTCHA_API_KEY''),
          returns None]
      else
        tryCatch
          (block [
             addDebugLog svc (emoji_magnifier @ '' Recherche du sitekey reCAPTCHA...''),
             await env FindSitekey,
             (case sitekey env of
                None \<Rightarrow>
                  block [addDebugLog svc (emoji_cross @ '' Sitekey reCAPTCHA introuvable''), returns None]
              | Some k \<Rightarrow>
                  if k = [] then
                    block [addDebugLog svc (emoji_cross @ '' Sitekey reCAPTCHA introuvable''), returns None]
                  else
                    block [
                      addDebugLog svc (emoji_key @ '' Sitekey trouv'' @ e_acute @ '': '' @ substring0 20 k @ ''...''),
                      addDebugLog svc (emoji_robot @ '' R'' @ e_acute @ ''solution du reCAPTCHA avec 2Captcha...''),
                      await env SolverRecaptcha,
                      addDebugLog svc (emoji_check @ '' reCAPTCHA r'' @ e_acute @ ''solu avec succ'' @ e_grave @ ''s!''),
                      returns (Some (solverToken env))])])
          (\<lambda>message. block [addDebugLog svc (emoji_cross @ '' Erreur 2Captcha: '' @ message), returns None]))"

definition injectCaptchaSolution :: "AccountAutomationService \<Rightarrow> AttemptEnv \<Rightarrow> 'r stmt" where
  "injectCaptchaSolution svc env =
     tryCatch
       (block [
          addDebugLog svc (emoji_syringe @ '' Injection du token reCAPTCHA...''),
          await env InjectToken,
          addDebugLog svc (emoji_check @ '' Token reCAPTCHA inject'' @ e_acute)])
       (\<lambda>message. addDebugLog svc (emoji_cross @ '' Erreur injection: '' @ message))"

section \<open>The account persistence gateway\<close>

text \<open>
  The row of a cookie: \<open>expires\<close> is floored when it is truthy, \<open>sameSite\<close> is kept when
  it is truthy.
\<close>

definition cookieRecord :: "string \<Rightarrow> Cookie \<Rightarrow> CookieRecord" where
  "cookieRecord accountId c =
     \<lparr>account_id = accountId, rec_name = cookieName c, rec_value = cookieValue c,
      rec_domain = cookieDomain c, rec_path = cookiePath c,
      rec_expires = (if cookieExpires c \<noteq> 0 then Some \<lfloor>cookieExpires c\<rfloor> else None),
      http_only = cookieHttpOnly c, secure = cookieSecure c,
      same_site = (if cookieSameSite c \<noteq> [] then Some (cookieSameSite c) else None)\<rparr>"

definition saveAccountToDatabase ::
  "AccountAutomationService \<Rightarrow> AttemptEnv \<Rightarrow> Cookie list \<Rightarrow> bool \<Rightarrow> 'r stmt" where
  "saveAccountToDatabase svc env cookies verified =
     tryCatch
       (block [
          addDebugLog svc (emoji_floppy @ '' Sauvegarde en base de donn'' @ e_acute @ ''es...''),
          withTask (\<lambda>t. record_event (InsertAccount (email t) (password t) verified)),
          (case accountInsert env of
             Rejected e \<Rightarrow> throw e
           | DbError m \<Rightarrow> throw (''DB Error: '' @ m)
           | DbOk accountId \<Rightarrow>
               if cookies \<noteq> [] then
                 block [
                   record_event (InsertCookies (map (cookieRecord accountId) cookies)),
                   (case cookiesInsert env of
                      Rejected e \<Rightarrow> throw e
                    | DbError m \<Rightarrow> skip
                    | DbOk u \<Rightarrow>
                        addDebugLog svc (emoji_check @ '' '' @ decimal (length cookies) @ '' cookies sauvegard'' @ e_acute @ ''s''))]
               else skip),
          addDebugLog svc (emoji_check @ '' Compte sauvegard'' @ e_acute @ '' en base de donn'' @ e_acute @ ''es'')])
       (\<lambda>message. addLog svc (emoji_warning @ '' Erreur DB: '' @ message))"

section \<open>The email verification poller\<close>

definition maxAttempts :: nat where "maxAttempts = 10"

definition messageContent :: "Message \<Rightarrow> string" where
  "messageContent m =
     (case htmlContent m of
        Some h \<Rightarrow> if h \<noteq> [] then h else (case textContent m of Some t \<Rightarrow> t | None \<Rightarrow> [])
      | None \<Rightarrow> (case textContent m of Some t \<Rightarrow> t | None \<Rightarrow> []))"

text \<open>The \<open>for\<close> over the messages of one poll: the first link found ends it.\<close>

fun findLink :: "(string \<Rightarrow> Message option) \<Rightarrow> Message list \<Rightarrow> string option" where
  "findLink details [] = None"
| "findLink details (msg # msgs) =
     (if stringIncludes (fromAddress msg) ''replit'' then
        (case details (messageId msg) of
           None \<Rightarrow> findLink details msgs
         | Some d \<Rightarrow>
             (case matchVerificationLink (messageContent d) of
                Some l \<Rightarrow> Some l
              | None \<Rightarrow> findLink details msgs))
      else findLink details msgs)"

text \<open>
  The \<open>while\<close> of \<open>verifyEmail\<close>, from the value \<open>attempts\<close> of its counter on: it
  returns the link, or \<open>None\<close> once the counter has reached \<open>maxAttempts\<close>.
\<close>

function pollMailbox ::
  "AccountAutomationService \<Rightarrow> AttemptEnv \<Rightarrow> nat \<Rightarrow> (string option) stmt" where
  "pollMailbox svc env attempts s =
     (if attempts < maxAttempts then
        (let s1 = recorded (GetMessages (email (task s))) s in
         case findLink (messageDetails env attempts) (mailbox env attempts) of
           Some l \<Rightarrow> (Return (Some l), s1)
         | None \<Rightarrow>
             (case block [
                     addDebugLog svc (emoji_hourglass @ '' Attente email... ('' @ decimal (attempts + 1)
                                      @ ''/'' @ decimal maxAttempts @ '')''),
                     sleep 3000] s1 of
                (Normal, s2) \<Rightarrow> pollMailbox svc env (attempts + 1) s2
              | (k, s2) \<Rightarrow> (k, s2)))
      else (Return None, s))"
  by pat_completeness auto
termination
  by (relation "measure (\<lambda>(svc, env, attempts, s). maxAttempts - attempts)") auto

declare pollMailbox.simps [simp del]

definition verifyEmail ::
  "AccountAutomationService \<Rightarrow> AttemptEnv \<Rightarrow> Cookie list \<Rightarrow> unit stmt" where
  "verifyEmail svc env cookies =
     tryCatch
       (block [
          updateStep ''email_verify'' running None,
          addDebugLog svc (emoji_envelope @ '' R'' @ e_acute @ ''cup'' @ e_acute @ ''ration de l'email de confirmation...''),
          sleep 5000,
          callThen (pollMailbox svc env 0) None (\<lambda>verificationLink.
            case verificationLink of
              None \<Rightarrow>
                block [
                  updateStep ''email_verify'' failed None,
                  addLog svc (emoji_cross @ '' Email de confirmation non re'' @ c_cedilla @ ''u''),
                  call (saveAccountToDatabase svc env cookies False :: unit stmt),
                  await env VerifyCloseContext,
                  await env VerifyCloseBrowser,
                  returns ()]
            | Some l \<Rightarrow>
                block [
                  addDebugLog svc (emoji_link @ '' Lien trouv'' @ e_acute @ '', validation en cours...''),
                  record_event (Visit l),
                  await env GotoVerification,
                  sleep 3000,
                  updateStep ''email_verify'' completed None,
                  addDebugLog svc (emoji_check @ '' Email valid'' @ e_acute @ '' avec succ'' @ e_grave @ ''s!''),
                  await env FinalCookies,
                  call (saveAccountToDatabase svc env (finalCookies env) True :: unit stmt),
                  await env VerifyCloseContext,
                  await env VerifyCloseBrowser])])
       (\<lambda>message.
          block [
            updateStep ''email_verify'' failed None,
            addLog svc (emoji_cross @ '' Erreur validation: '' @ message),
            call (saveAccountToDatabase svc env cookies False :: unit stmt),
            ifSet browserContext (await env CatchCloseContext),
            ifSet browser (await env CatchCloseBrowser)])"

section \<open>The signup driver\<close>

text \<open>
  \<open>attemptSignup\<close>, in the order of its text.  The three closing lines that end each
  failing path (\<open>if (page) await page.close().catch(() => {})\<close> and its two siblings)
  are \<open>closeSession\<close>.
\<close>

definition closeSession :: "'r stmt" where
  "closeSession =
     block [
       ifSet page (awaitQuietly ClosePage),
       ifSet browserContext (awaitQuietly CloseContext),
       ifSet browser (awaitQuietly CloseBrowser)]"

definition pushScreenshot :: "string \<Rightarrow> 'r stmt" where
  "pushScreenshot png =
     onTask (\<lambda>t. t\<lparr>screenshots := screenshots t @ [''data:image/png;base64,'' @ png]\<rparr>)"

definition pushErrorMessage :: "string \<Rightarrow> 'r stmt" where
  "pushErrorMessage m = onTask (\<lambda>t. t\<lparr>errorMessages := errorMessages t @ [m]\<rparr>)"

definition openSession :: "AccountAutomationService \<Rightarrow> AttemptEnv \<Rightarrow> nat \<Rightarrow> 'r stmt" where
  "openSession svc env attemptNumber =
     block [
       (if attemptNumber > 1 then
          block [
            addDebugLog svc (emoji_arrows @ '' Tentative '' @ decimal attemptNumber @ ''/'' @ decimal MAX_RETRIES
                             @ '' avec nouveau contexte propre''),
            sleep (randomDelay (pauseRandom env) 5000 5000)]
        else skip),
       updateStep ''load'' running
         (Some (emoji_masks @ '' Browser: '' @ decimal (viewportWidth env) @ ''x'' @ decimal (viewportHeight env)
                @ '' (Tentative '' @ decimal attemptNumber @ '')'')),
       addDebugLog svc (emoji_globe @ '' Configuration navigateur avec anti-d'' @ e_acute @ ''tection 2025...''),
       await env ChromiumLaunch,
       assign (\<lambda>s. s\<lparr>browser := True\<rparr>),
       addDebugLog svc (emoji_cookie @ '' Cr'' @ e_acute @ ''ation du contexte avec cookies persistants...''),
       await env NewContext,
       assign (\<lambda>s. s\<lparr>browserContext := True\<rparr>),
       call (loadCookies env),
       await env NewPage,
       assign (\<lambda>s. s\<lparr>page := True\<rparr>),
       await env AddInitScript]"

definition initialDelay :: "AccountAutomationService \<Rightarrow> AttemptEnv \<Rightarrow> nat" where
  "initialDelay svc env =
     (if debugMode svc then randomDelay (initialDelayRandom env) 500 500
      else randomDelay (initialDelayRandom env) 3000 5000)"

definition loadSignupPage :: "AccountAutomationService \<Rightarrow> AttemptEnv \<Rightarrow> 'r stmt" where
  "loadSignupPage svc env =
     block [
       updateStep ''load'' running (Some (emoji_globe @ '' Navigation vers replit.com/signup...'')),
       await env GotoSignup,
       addDebugLog svc (emoji_hourglass @ '' Attente initiale: '' @ decimal (initialDelay svc env)
                        @ ''ms (simulation comportement humain)''),
       await env IdleBehaviour,
       pushScreenshot (screenshot1 env),
       updateStep ''load'' completed None,
       addDebugLog svc (emoji_check @ '' Page charg'' @ e_acute @ ''e''),
       updateStep ''form'' running None]"

definition fillForm :: "AccountAutomationService \<Rightarrow> AttemptEnv \<Rightarrow> 'r stmt" where
  "fillForm svc env =
     block [
       await env FindEmailButton,
       (if emailPasswordButton env then
          block [
            await env ClickEmailButton,
            addDebugLog svc (emoji_check @ '' Bouton Email & Password cliqu'' @ e_acute)]
        else skip),
       await env FindEmailInput,
       (if \<not> emailInput env then throw ''Champ email introuvable'' else skip),
       await env TypeEmail,
       withTask (\<lambda>t. addDebugLog svc (emoji_memo @ '' Email saisi:'' @ newline @ ''   '' @ email t)),
       await env FindPasswordInput,
       (if \<not> passwordInput env then throw ''Champ password introuvable'' else skip),
       await env FocusPassword,
       withTask (\<lambda>t. case password t of
                        None \<Rightarrow> throw ''task.password is not iterable''
                      | Some pw \<Rightarrow> await env TypePassword),
       updateStep ''form'' completed None,
       withTask (\<lambda>t. addDebugLog svc (emoji_lock @ '' Mot de passe saisi:'' @ newline @ ''   ''
                                        @ (case password t of Some pw \<Rightarrow> pw | None \<Rightarrow> ''undefined''))),
       await env BeforeSubmit]"

definition waitTime :: "AccountAutomationService \<Rightarrow> AttemptEnv \<Rightarrow> nat" where
  "waitTime svc env =
     (if debugMode svc then 2000 else randomDelay (waitTimeRandom env) 3000 8000)"

definition submitForm :: "AccountAutomationService \<Rightarrow> AttemptEnv \<Rightarrow> 'r stmt" where
  "submitForm svc env =
     block [
       updateStep ''submit'' running None,
       await env FindCreateButton,
       (if \<not> createButton env then
          block [
            await env MissingButtonScreenshot,
            pushScreenshot (screenshotMissing env),
            throw ''Bouton Create Account introuvable'']
        else skip),
       await env ClickCreate,
       addDebugLog svc (emoji_mouse @ '' Bouton Create Account cliqu'' @ e_acute @ '' - Analyse en cours...''),
       addDebugLog svc (emoji_hourglass @ '' Attente r'' @ e_acute @ ''ponse serveur: '' @ decimal (waitTime svc env) @ ''ms''),
       await env AfterSubmit,
       pushScreenshot (screenshot2 env),
       await env ReadPage]"

definition captchaPatterns :: "string list list" where
  "captchaPatterns = [[''captcha token is invalid''], [''captcha'', ''expired''], [''captcha'']]"

definition otherErrorPatterns :: "(string list \<times> string) list" where
  "otherErrorPatterns =
     [([''doing it too much''], ''Trop de tentatives (rate limit)''),
      ([''try again''], ''R'' @ e_acute @ ''essayer demand'' @ e_acute),
      ([''email'', ''already'', ''taken''], ''Email d'' @ e_acute @ ''j'' @ a_grave @ '' utilis'' @ e_acute),
      ([''email'', ''exists''], ''Email d'' @ e_acute @ ''j'' @ a_grave @ '' existant''),
      ([''invalid'', ''email''], ''Email invalide''),
      ([''password'', ''short''], ''Mot de passe trop court'')]"

definition captchaDetected :: "string \<Rightarrow> bool" where
  "captchaDetected content = list_ex (\<lambda>pattern. regexTest pattern content) captchaPatterns"

definition otherErrorDetected :: "string \<Rightarrow> bool" where
  "otherErrorDetected content = list_ex (\<lambda>(pattern, message). regexTest pattern content) otherErrorPatterns"

text \<open>\<open>!url.includes('/signup') && url.includes('replit.com')\<close>.\<close>

definition leftSignup :: "string \<Rightarrow> bool" where
  "leftSignup url = (\<not> stringIncludes url ''/signup'' \<and> stringIncludes url ''replit.com'')"

definition truthy :: "string option \<Rightarrow> bool" where
  "truthy v = (case v of None \<Rightarrow> False | Some x \<Rightarrow> x \<noteq> [])"

definition resolveCaptcha :: "AccountAutomationService \<Rightarrow> AttemptEnv \<Rightarrow> bool stmt" where
  "resolveCaptcha svc env =
     block [
       addLog svc (emoji_robot @ '' reCAPTCHA d'' @ e_acute @ ''tect'' @ e_acute @ '' - tentative de r'' @ e_acute
                   @ ''solution automatique...''),
       callThen (solveCaptcha svc env) None (\<lambda>token.
         if truthy token then
           block [
             injectCaptchaSolution svc env,
             await env CaptchaWait,
             await env FindCreateButtonAgain,
             (if createButtonAgain env then
                block [
                  await env ClickCreateAgain,
                  addDebugLog svc (emoji_arrows @ '' Nouvelle soumission avec token 2Captcha...''),
                  await env ResubmitWait,
                  (if leftSignup (newUrl env) then
                     block [
                       updateStep ''submit'' completed None,
                       addDebugLog svc (emoji_check @ '' Succ'' @ e_grave @ ''s avec 2Captcha!''),
                       updateStep ''redirect'' completed None,
                       await env ContextCookies,
                       saveCookies env,
                       call (verifyEmail svc env (contextCookies env)),
                       returns True]
                   else skip)]
              else skip)]
         else skip),
       addLog svc (emoji_cross @ '' '' @ E_acute @ ''chec r'' @ e_acute @ ''solution CAPTCHA - retry n'' @ e_acute @ ''cessaire''),
       addDebugLog svc (emoji_warning @ '' Fermeture du contexte empoisonn'' @ e_acute @ ''...''),
       closeSession,
       returns False]"

definition classify :: "AccountAutomationService \<Rightarrow> AttemptEnv \<Rightarrow> bool stmt" where
  "classify svc env =
     (if captchaDetected (pageContent env) \<and> captchaSolver svc then resolveCaptcha svc env
      else if captchaDetected (pageContent env) \<and> \<not> captchaSolver svc then
        block [
          addLog svc (emoji_cross @ '' reCAPTCHA d'' @ e_acute @ ''tect'' @ e_acute
                      @ '' - Configurez CAPTCHA_API_KEY pour r'' @ e_acute @ ''solution auto''),
          addDebugLog svc (emoji_warning @ '' Fermeture du contexte empoisonn'' @ e_acute @ ''...''),
          closeSession,
          returns False]
      else
        block [
          block (map (\<lambda>(pattern, message).
                   if regexTest pattern (pageContent env) then
                     block [
                       pushErrorMessage message,
                       updateStep ''submit'' failed None,
                       addLog svc (emoji_cross @ '' '' @ message)]
                   else skip) otherErrorPatterns),
          (if otherErrorDetected (pageContent env) then
             block [
               addDebugLog svc (emoji_warning @ '' Fermeture du contexte empoisonn'' @ e_acute @ '' avant retry...''),
               closeSession,
               returns False]
           else skip),
          (if leftSignup (currentUrl env) then
             block [
               updateStep ''submit'' completed None,
               addDebugLog svc (emoji_check @ '' Soumission r'' @ e_acute @ ''ussie''),
               updateStep ''redirect'' completed None,
               addDebugLog svc (emoji_check @ '' Redirig'' @ e_acute @ '' vers: '' @ currentUrl env),
               await env ContextCookies,
               call (verifyEmail svc env (contextCookies env)),
               returns True]
           else
             block [
               addDebugLog svc (emoji_warning @ '' Toujours sur la page signup - d'' @ e_acute @ ''tection probable''),
               await env FindErrorElements,
               block (map (\<lambda>text.
                        if truthy text \<and> trim (the text) \<noteq> [] then
                          block [
                            addLog svc (emoji_siren @ '' '' @ trim (the text)),
                            pushErrorMessage (trim (the text))]
                        else skip) (errorElements env)),
               updateStep ''submit'' failed None,
               addDebugLog svc (emoji_warning @ '' Nettoyage du contexte empoisonn'' @ e_acute @ ''...''),
               closeSession,
               returns False])])"

definition attemptSignup :: "AccountAutomationService \<Rightarrow> AttemptEnv \<Rightarrow> nat \<Rightarrow> bool stmt" where
  "attemptSignup svc env attemptNumber =
     block [
       assign (\<lambda>s. s\<lparr>browser := False, browserContext := False, page := False\<rparr>),
       tryCatch
         (block [
            openSession svc env attemptNumber,
            loadSignupPage svc env,
            fillForm svc env,
            submitForm svc env,
            classify svc env])
         (\<lambda>message.
            block [
              pushErrorMessage (if message \<noteq> [] then message else ''Error''),
              updateStep ''submit'' failed None,
              addLog svc (emoji_cross @ '' '' @ (if message \<noteq> [] then message else ''Error'')),
              addDebugLog svc (emoji_warning @ '' Erreur - nettoyage complet du navigateur...''),
              closeSession,
              returns False])]"

section \<open>The retry controller\<close>

text \<open>
  The lines of \<open>runAutomation\<close> that prepare attempt \<open>attempt > 1\<close>: steps that failed go
  back to pending, the pause is drawn, announced and awaited, and the diagnostics of the
  attempt before are dropped.
\<close>

definition resetFailedSteps :: "AutomationStep list \<Rightarrow> AutomationStep list" where
  "resetFailedSteps = map (\<lambda>step. if stepStatus step = failed then step\<lparr>stepStatus := pending\<rparr> else step)"

definition bootstrapLine :: "string \<Rightarrow> bool" where
  "bootstrapLine line =
     (stringIncludes line (emoji_rocket @ '' D'' @ e_acute @ ''marrage'')
      \<or> stringIncludes line (emoji_envelope @ '' Email:'')
      \<or> stringIncludes line (emoji_hourglass @ '' Initialisation'')
      \<or> stringIncludes line (emoji_play @ '' D'' @ e_acute @ ''marrage'')
      \<or> stringIncludes line (emoji_arrows @ '' Tentative'')
      \<or> stringIncludes line (emoji_hourglass @ '' Pause''))"

definition retryReset :: "AccountAutomationService \<Rightarrow> RunEnv \<Rightarrow> nat \<Rightarrow> 'r stmt" where
  "retryReset svc env attempt =
     block [
       addDebugLog svc (newline @ emoji_arrows @ '' Tentative '' @ decimal attempt @ ''/'' @ decimal MAX_RETRIES),
       onTask (\<lambda>t. t\<lparr>steps := resetFailedSteps (steps t)\<rparr>),
       addDebugLog svc (emoji_hourglass @ '' Pause de ''
                        @ decimal (randomDelay (backoffRandom env attempt) 8000 5000 div 1000) @ ''s...''),
       notifyUpdate svc,
       sleep (randomDelay (backoffRandom env attempt) 8000 5000),
       onTask (\<lambda>t. t\<lparr>errorMessages := []\<rparr>),
       onTask (\<lambda>t. t\<lparr>screenshots := []\<rparr>),
       onTask (\<lambda>t. t\<lparr>debugLogs := filter bootstrapLine (debugLogs t)\<rparr>)]"

definition setCompletedAt :: "nat \<Rightarrow> 'r stmt" where
  "setCompletedAt now = onTask (\<lambda>t. t\<lparr>completedAt := Some now\<rparr>)"

definition clearInterval :: "'r stmt" where
  "clearInterval = assign (\<lambda>s. s\<lparr>timer := None\<rparr>)"

text \<open>The \<open>if (success)\<close> that follows an attempt.\<close>

definition afterAttempt :: "AccountAutomationService \<Rightarrow> RunEnv \<Rightarrow> bool \<Rightarrow> unit stmt" where
  "afterAttempt svc env success =
     (if success then
        block [
          setStatus completed,
          setCompletedAt (completedClock env),
          notifyUpdate svc,
          clearInterval,
          returns ()]
      else skip)"

text \<open>
  One turn of the \<open>for\<close> of \<open>runAutomation\<close>: it returns when the attempt succeeded
  and completes normally when the loop goes on.
\<close>

definition attemptRound :: "AccountAutomationService \<Rightarrow> RunEnv \<Rightarrow> nat \<Rightarrow> unit stmt" where
  "attemptRound svc env attempt =
     block [
       (if attempt > 1 then retryReset svc env attempt else skip),
       callThen (attemptSignup svc (attemptEnv env attempt) attempt) False (afterAttempt svc env)]"

text \<open>
  The \<open>for\<close> from attempt number \<open>attempt\<close> on, with what follows it when every
  attempt has failed.
\<close>

function retryLoop :: "AccountAutomationService \<Rightarrow> RunEnv \<Rightarrow> nat \<Rightarrow> unit stmt" where
  "retryLoop svc env attempt s =
     (if attempt \<le> MAX_RETRIES then
        (case attemptRound svc env attempt s of
           (Normal, s') \<Rightarrow> retryLoop svc env (attempt + 1) s'
         | (k, s') \<Rightarrow> (k, s'))
      else
        block [
          setStatus failed,
          setCompletedAt (completedClock env),
          addDebugLog svc (emoji_cross @ '' '' @ E_acute @ ''chec d'' @ e_acute @ ''finitif apr'' @ e_grave @ ''s ''
                           @ decimal MAX_RETRIES @ '' tentatives''),
          notifyUpdate svc] s)"
  by pat_completeness auto
termination
  by (relation "measure (\<lambda>(svc, env, attempt, s). Suc MAX_RETRIES - attempt)") auto

declare retryLoop.simps [simp del]

text \<open>\<open>runAutomation\<close>: the interval is set before the \<open>try\<close> and cleared in its \<open>finally\<close>.\<close>

definition setInterval :: "RunEnv \<Rightarrow> 'r stmt" where
  "setInterval env = assign (\<lambda>s. s\<lparr>timer := Some (timerFires env)\<rparr>)"

definition runAutomation :: "AccountAutomationService \<Rightarrow> RunEnv \<Rightarrow> string \<Rightarrow> unit stmt" where
  "runAutomation svc env tid =
     (case tasks svc tid of
        None \<Rightarrow> returns ()
      | Some t \<Rightarrow>
          block [
            setStatus running,
            notifyUpdate svc,
            addDebugLog svc (emoji_play @ '' D'' @ e_acute @ ''marrage de l'automatisation...''),
            setInterval env,
            tryFinally (retryLoop svc env 1) clearInterval])"

section \<open>The public API\<close>

definition newWorkerPool :: "int \<Rightarrow> WorkerPool" where
  "newWorkerPool n = \<lparr>maxWorkers = n, activeWorkers = 0, queue = []\<rparr>"

text \<open>The constructor; \<open>apiKey\<close> says whether \<open>CAPTCHA_API_KEY\<close> is set.\<close>

definition newService :: "bool \<Rightarrow> AccountAutomationService" where
  "newService apiKey =
     \<lparr>tasks = Map.empty, updateCallbacks = Map.empty, workerPool = newWorkerPool MAX_WORKERS,
      debugMode = False, captchaSolver = apiKey\<rparr>"

definition setDebugMode :: "bool \<Rightarrow> AccountAutomationService \<Rightarrow> AccountAutomationService" where
  "setDebugMode enabled svc = svc\<lparr>debugMode := enabled\<rparr>"

definition getTask :: "AccountAutomationService \<Rightarrow> string \<Rightarrow> AutomationTask option" where
  "getTask svc tid = tasks svc tid"

text \<open>The object literal of \<open>createReplitAccount\<close>.\<close>

definition newTask :: "string \<Rightarrow> string \<Rightarrow> nat \<Rightarrow> AutomationTask" where
  "newTask tid mail now =
     \<lparr>taskId = tid, provider = replit, email = mail, password = Some mail, status = pending,
      steps = [
        \<lparr>stepId = ''load'', stepLabel = ''Chargement de la page'', stepStatus = pending\<rparr>,
        \<lparr>stepId = ''form'', stepLabel = ''Saisie email et mot de passe'', stepStatus = pending\<rparr>,
        \<lparr>stepId = ''submit'', stepLabel = ''Cr'' @ e_acute @ ''ation du compte'', stepStatus = pending\<rparr>,
        \<lparr>stepId = ''redirect'', stepLabel = ''Redirection r'' @ e_acute @ ''ussie'', stepStatus = pending\<rparr>,
        \<lparr>stepId = ''email_verify'', stepLabel = ''Validation de l'email'', stepStatus = pending\<rparr>],
      screenshots = [], logs = [], debugLogs = [], errorMessages = [],
      createdAt = now, completedAt = None\<rparr>"

definition newState :: "AutomationTask \<Rightarrow> (string \<rightharpoonup> Cookie list) \<Rightarrow> State" where
  "newState t files =
     \<lparr>task = t, browser = False, browserContext = False, page = False,
      cookieFiles = files, timer = None, events = []\<rparr>"

text \<open>The handler of \<open>this.runAutomation(taskId).catch(...)\<close>.\<close>

definition fatalHandler :: "AccountAutomationService \<Rightarrow> RunEnv \<Rightarrow> string \<Rightarrow> unit stmt" where
  "fatalHandler svc env message =
     block [
       setStatus failed,
       pushErrorMessage (''Erreur fatale: '' @ message),
       setCompletedAt (fatalClock env),
       notifyUpdate svc]"


section \<open>The worker pool\<close>

text \<open>
  \<open>WorkerPool.execute\<close> runs between awaits in three moves: the test of its \<open>while\<close>
  (\<open>poolFull\<close>), the increment that follows a failed test in the same turn of the event
  loop (\<open>acquire\<close>), and the \<open>finally\<close> (\<open>release\<close>).  Nothing ever pushes to the queue.
\<close>

definition poolFull :: "WorkerPool \<Rightarrow> bool" where
  "poolFull p = (activeWorkers p \<ge> maxWorkers p)"

definition acquire :: "WorkerPool \<Rightarrow> WorkerPool" where
  "acquire p = p\<lparr>activeWorkers := activeWorkers p + 1\<rparr>"

definition processQueue :: "WorkerPool \<Rightarrow> WorkerPool" where
  "processQueue p =
     (if length (queue p) > 0 \<and> activeWorkers p < maxWorkers p then p\<lparr>queue := tl (queue p)\<rparr> else p)"

definition release :: "WorkerPool \<Rightarrow> WorkerPool" where
  "release p = processQueue (p\<lparr>activeWorkers := activeWorkers p - 1\<rparr>)"

text \<open>
  The callers of \<open>execute\<close> as the event loop interleaves them.  A caller is waiting
  (asleep in the \<open>while\<close>) or executing (its function runs).  A call enters (\<open>Enter\<close>), a
  sleeper wakes and tests again (\<open>Wake\<close>), the function of a caller settles (\<open>Settle\<close>),
  in any order and at any time.
\<close>

datatype PoolEvent =
    Enter nat
  | Wake nat
  | Settle nat

record System =
  pool :: WorkerPool
  waiting :: "nat list"
  executing :: "nat list"


fun step :: "System \<Rightarrow> PoolEvent \<Rightarrow> System" where
  "step sys (Enter c) =
     (if c \<in> set (waiting sys) \<or> c \<in> set (executing sys) then sys
      else if poolFull (pool sys) then sys\<lparr>waiting := waiting sys @ [c]\<rparr>
      else sys\<lparr>pool := acquire (pool sys), executing := executing sys @ [c]\<rparr>)"
| "step sys (Wake c) =
     (if c \<in> set (waiting sys) \<and> \<not> poolFull (pool sys)
      then sys\<lparr>pool := acquire (pool sys), waiting := removeAll c (waiting sys),
                executing := executing sys @ [c]\<rparr>
      else sys)"
| "step sys (Settle c) =
     (if c \<in> set (executing sys)
      then sys\<lparr>pool := release (pool sys), executing := removeAll c (executing sys)\<rparr>
      else sys)"



section \<open>What a statement may change\<close>

text \<open>
  The kind of an event, and the fields of the state a statement may write besides the
  trace.  \<open>modifies W K c\<close>: whatever \<open>c\<close> does and however it completes, it writes
  only fields of \<open>W\<close>, appends only events of the kinds \<open>K\<close>, and leaves the identity of
  the task (its id, provider, credentials, creation time, and the ids and labels of its
  steps) alone.
\<close>

datatype Kind =
    KCall CallSite | KSleep | KVisit | KNotify | KStatusWrite | KRead | KWrite
  | KGetMessages | KInsertAccount | KInsertCookies | KTick

fun kind :: "Event \<Rightarrow> Kind" where
  "kind (Call site) = KCall site"
| "kind (Sleep ms) = KSleep"
| "kind (Visit url) = KVisit"
| "kind (Notify i t) = KNotify"
| "kind (StatusWrite st) = KStatusWrite"
| "kind (ReadCookieFile tid) = KRead"
| "kind (WriteCookieFile tid cookies) = KWrite"
| "kind (GetMessages mail) = KGetMessages"
| "kind (InsertAccount mail pw verified) = KInsertAccount"
| "kind (InsertCookies rows) = KInsertCookies"
| "kind (Tick t) = KTick"

datatype Field =
    Steps | Logs | DebugLogs | Screenshots | ErrorMessages | StatusField | CompletedAt
  | Locals | CookieFiles | Timer

definition sameIdentity :: "AutomationTask \<Rightarrow> AutomationTask \<Rightarrow> bool" where
  "sameIdentity t t' =
     (taskId t' = taskId t \<and> provider t' = provider t \<and> email t' = email t
      \<and> password t' = password t \<and> createdAt t' = createdAt t
      \<and> map stepId (steps t') = map stepId (steps t)
      \<and> map stepLabel (steps t') = map stepLabel (steps t))"

definition keeps :: "Field set \<Rightarrow> Field \<Rightarrow> 'a \<Rightarrow> 'a \<Rightarrow> bool" where
  "keeps W field x y = (field \<in> W \<or> y = x)"

definition agree :: "Field set \<Rightarrow> State \<Rightarrow> State \<Rightarrow> bool" where
  "agree W s s' =
     (sameIdentity (task s) (task s')
      \<and> keeps W Steps (steps (task s)) (steps (task s'))
      \<and> keeps W Logs (logs (task s)) (logs (task s'))
      \<and> keeps W DebugLogs (debugLogs (task s)) (debugLogs (task s'))
      \<and> keeps W Screenshots (screenshots (task s)) (screenshots (task s'))
      \<and> keeps W ErrorMessages (errorMessages (task s)) (errorMessages (task s'))
      \<and> keeps W StatusField (status (task s)) (status (task s'))
      \<and> keeps W CompletedAt (completedAt (task s)) (completedAt (task s'))
      \<and> keeps W Locals (browser s, browserContext s, page s) (browser s', browserContext s', page s')
      \<and> keeps W CookieFiles (cookieFiles s) (cookieFiles s')
      \<and> keeps W Timer (timer s) (timer s'))"

definition modifies :: "Field set \<Rightarrow> Kind set \<Rightarrow> 'r stmt \<Rightarrow> bool" where
  "modifies W K c =
     (\<forall>s. agree W s (snd (c s))
          \<and> (\<exists>evs. events (snd (c s)) = events s @ evs \<and> kind ` set evs \<subseteq> K))"

text \<open>
  \<open>endsIn S c\<close>: however \<open>c\<close> is started, it completes in one of the ways of \<open>S\<close>.
  \<open>noThrow c\<close>: \<open>c\<close> never completes with a throw.
\<close>

definition endsIn :: "'r completion set \<Rightarrow> 'r stmt \<Rightarrow> bool" where
  "endsIn S c = (\<forall>s. fst (c s) \<in> S)"

definition noThrow :: "'r stmt \<Rightarrow> bool" where
  "noThrow c = endsIn (- range Throw) c"

text \<open>The events of one kind, in the order of the trace.\<close>

definition ofKind :: "Kind \<Rightarrow> Event list \<Rightarrow> Event list" where
  "ofKind k evs = filter (\<lambda>e. kind e = k) evs"


section \<open>Example tasks, services and environments\<close>

definition exampleTask :: AutomationTask where
  "exampleTask = newTask ''t1'' ''a@antdev.org'' 0"



text \<open>
  The task after a first attempt that filled the form and failed at the submission, with
  what that attempt left in the diagnostics; the interval of the run is set.
\<close>

definition halfDoneState :: State where
  "halfDoneState =
     (newState (exampleTask\<lparr>
         status := running,
         steps := setStepStatus ''submit'' failed
                    (setStepStatus ''form'' completed
                      (setStepStatus ''load'' completed (steps exampleTask))),
         screenshots := [''data:image/png;base64,iVBORw0KGgo=''],
         debugLogs := [emoji_rocket @ '' D'' @ e_acute @ ''marrage de l'automatisation Replit'',
                       emoji_check @ '' Page charg'' @ e_acute @ ''e''],
         errorMessages := [''Email invalide'']\<rparr>) Map.empty)
     \<lparr>timer := Some (\<lambda>i. 1)\<rparr>"

text \<open>
  A service that holds the task \<open>t1\<close> and has one subscriber to it, which returns
  whatever it is shown; the same service in debug mode.
\<close>

definition watchedService :: AccountAutomationService where
  "watchedService =
     onTaskUpdate ''t1'' (\<lambda>t. None) ((newService False)\<lparr>tasks := [''t1'' \<mapsto> exampleTask]\<rparr>)"

definition debugService :: AccountAutomationService where
  "debugService = setDebugMode True watchedService"

definition sessionCookie :: Cookie where
  "sessionCookie =
     \<lparr>cookieName = ''connect.sid'', cookieValue = ''s3cr3t'', cookieDomain = ''.replit.com'',
      cookiePath = ''/'', cookieExpires = -1, cookieHttpOnly = True, cookieSecure = True,
      cookieSameSite = ''Lax''\<rparr>"

definition verificationMail :: Message where
  "verificationMail =
     \<lparr>messageId = ''m1'', fromAddress = ''no-reply@replit.com'', textContent = None,
      htmlContent = Some ''<a href=https://replit.com/verify?code=42>Verify</a>''\<rparr>"

text \<open>
  An attempt in which every call resolves, the form is there, the submission leaves the
  signup path, and the verification message is in the mailbox at the first poll.
\<close>

definition welcomeEnv :: AttemptEnv where
  "welcomeEnv =
     \<lparr>rejects = (\<lambda>site. None), viewportWidth = 1920, viewportHeight = 1080,
      pauseRandom = 1 / 2, initialDelayRandom = 1 / 2, waitTimeRandom = 1 / 2,
      loadCookiesError = None, writeCookiesError = None, screenshot1 = ''iVBORw0KGgo='',
      emailPasswordButton = True, emailInput = True, passwordInput = True, createButton = True,
      screenshotMissing = ''iVBORw0KGgo='', screenshot2 = ''iVBORw0KGgo='',
      pageContent = ''<html>Welcome</html>'', currentUrl = ''https://replit.com/~'',
      sitekey = None, solverToken = [], createButtonAgain = False, newUrl = [],
      contextCookies = [sessionCookie], sessionCookies = [sessionCookie], errorElements = [],
      mailbox = (\<lambda>poll. [verificationMail]),
      messageDetails = (\<lambda>poll mid. Some verificationMail),
      finalCookies = [sessionCookie], accountInsert = DbOk ''acc-1'', cookiesInsert = DbOk ()\<rparr>"

text \<open>The same attempt with a mailbox that stays empty.\<close>

definition noMailEnv :: AttemptEnv where
  "noMailEnv = welcomeEnv\<lparr>mailbox := (\<lambda>poll. [])\<rparr>"

text \<open>An attempt that the provider answers with a soft error, on the signup page.\<close>

definition takenEnv :: AttemptEnv where
  "takenEnv = welcomeEnv\<lparr>pageContent := ''Email already taken'', currentUrl := ''https://replit.com/signup''\<rparr>"

text \<open>An attempt that the provider answers with a CAPTCHA.\<close>

definition captchaEnv :: AttemptEnv where
  "captchaEnv = welcomeEnv\<lparr>pageContent := ''Captcha'', currentUrl := ''https://replit.com/signup''\<rparr>"

definition exampleRunEnv :: "(nat \<Rightarrow> AttemptEnv) \<Rightarrow> RunEnv" where
  "exampleRunEnv attempts =
     \<lparr>newId = ''t1'', createdClock = 1000, completedClock = 2000, fatalClock = 3000,
      cookieDir = Map.empty, backoffRandom = (\<lambda>attempt. 1 / 2), timerFires = (\<lambda>i. 1),
      attemptEnv = attempts\<rparr>"



text \<open>
  \<open>silent k c\<close>: \<open>c\<close> appends no event of the kind \<open>k\<close>.  \<open>once k c\<close>: however
  \<open>c\<close> completes, it appends exactly one.
\<close>

definition silent :: "Kind \<Rightarrow> 'r stmt \<Rightarrow> bool" where
  "silent k c = (\<forall>s. ofKind k (events (snd (c s))) = ofKind k (events s))"

definition once :: "Kind \<Rightarrow> 'r stmt \<Rightarrow> bool" where
  "once k c = (\<forall>s. \<exists>e. kind e = k \<and> ofKind k (events (snd (c s))) = ofKind k (events s) @ [e])"

section \<open>Notification of subscribers\<close>

lemma forEachCallback_quiet:
  "\<forall>cb \<in> set cbs. \<forall>t. cb t = None \<Longrightarrow>
   forEachCallback cbs i s =
     (Normal, s\<lparr>events := events s @ map (\<lambda>j. Notify j (task s)) [i ..< i + length cbs]\<rparr>)"
proof (induction cbs arbitrary: i s)
  case Nil
  then show ?case by simp
next
  case (Cons cb cbs)
  have "[i ..< i + length (cb # cbs)] = i # [Suc i ..< Suc i + length cbs]"
    by (simp add: upt_rec)
  with Cons show ?case by simp
qed

lemma callbacksOf_quiet:
  "quietSubscribers svc \<Longrightarrow> \<forall>cb \<in> set (callbacksOf svc tid). \<forall>t. cb t = None"
proof (cases "updateCallbacks svc tid")
  case None
  then show ?thesis by (simp add: callbacksOf_def)
next
  case (Some cbs)
  assume "quietSubscribers svc"
  with Some have "\<forall>cb \<in> set cbs. \<forall>t. cb t = None"
    unfolding quietSubscribers_def by blast
  with Some show ?thesis by (simp add: callbacksOf_def)
qed

lemma notifyUpdate_quiet:
  "quietSubscribers svc \<Longrightarrow>
   notifyUpdate svc s =
     (Normal, s\<lparr>events := events s @
        map (\<lambda>j. Notify j (task s)) [0 ..< length (callbacksOf svc (taskId (task s)))]\<rparr>)"
  unfolding notifyUpdate_def
  using forEachCallback_quiet [OF callbacksOf_quiet, of svc "taskId (task s)" 0 s] by simp



lemma quiet_new: "quietSubscribers (newService apiKey)"
  by (simp add: quietSubscribers_def newService_def)

lemma callbacks_new: "callbacksOf (newService apiKey) tid = []"
  by (simp add: callbacksOf_def newService_def)

lemma debugMode_new: "debugMode (newService apiKey) = False"
  by (simp add: newService_def)

section \<open>The reset before a retry\<close>

lemma randomDelay_bounds:
  assumes "0 \<le> r" and "r < 1"
  shows "base \<le> randomDelay r width base \<and> (0 < width \<longrightarrow> randomDelay r width base < base + width)"
proof -
  have "0 \<le> r * real width" using assms by simp
  hence lo: "0 \<le> \<lfloor>r * real width\<rfloor>" by simp
  have "0 < width \<Longrightarrow> r * real width < real width" using assms by simp
  hence "0 < width \<Longrightarrow> \<lfloor>r * real width\<rfloor> < int width"
    by (simp add: floor_less_iff)
  with lo show ?thesis unfolding randomDelay_def by auto
qed

lemma resetFailedSteps_props:
  "length (resetFailedSteps xs) = length xs"
  "map stepId (resetFailedSteps xs) = map stepId xs"
  "map stepLabel (resetFailedSteps xs) = map stepLabel xs"
  "map stepStatus (resetFailedSteps xs) = map (\<lambda>st. if st = failed then pending else st) (map stepStatus xs)"
  by (simp_all add: resetFailedSteps_def)

lemma startsWith_append: "startsWith (m @ b) m"
  by (induction m) simp_all

lemma stringIncludes_append: "stringIncludes (a @ m @ b) m"
proof (induction a)
  case Nil
  show ?case
  proof (cases "m @ b")
    case Nil
    then show ?thesis by simp
  next
    case (Cons c cs)
    from startsWith_append [of m b] have "startsWith (c # cs) m" unfolding Cons .
    then show ?thesis by (simp add: Cons)
  qed
next
  case (Cons c a)
  then show ?case by simp
qed

text \<open>The two lines the reset writes in debug mode hold a bootstrap marker each.\<close>

lemma bootstrap_attempt_line:
  "bootstrapLine (newline @ emoji_arrows @ '' Tentative '' @ rest)"
proof -
  have "stringIncludes (newline @ (emoji_arrows @ '' Tentative'') @ ('' '' @ rest)) (emoji_arrows @ '' Tentative'')"
    by (rule stringIncludes_append)
  then show ?thesis unfolding bootstrapLine_def by simp
qed

lemma bootstrap_pause_line:
  "bootstrapLine (emoji_hourglass @ '' Pause de '' @ rest)"
proof -
  have "stringIncludes ([] @ (emoji_hourglass @ '' Pause'') @ ('' de '' @ rest)) (emoji_hourglass @ '' Pause'')"
    by (rule stringIncludes_append)
  then show ?thesis unfolding bootstrapLine_def by simp
qed

lemma decimal_digit: "n < 10 \<Longrightarrow> decimal n = [''0123456789'' ! n]"
  by (subst decimal.simps) simp

section \<open>The bound of the worker pool\<close>




section \<open>Frames\<close>

lemma keeps_refl: "keeps W field x x"
  by (simp add: keeps_def)

lemma keeps_trans: "keeps W field x y \<Longrightarrow> keeps W field y z \<Longrightarrow> keeps W field x z"
  by (auto simp: keeps_def)

lemma sameIdentity_refl: "sameIdentity t t"
  by (simp add: sameIdentity_def)

lemma sameIdentity_trans: "sameIdentity t t' \<Longrightarrow> sameIdentity t' t'' \<Longrightarrow> sameIdentity t t''"
  by (simp add: sameIdentity_def)

lemma agree_refl: "agree W s s"
  by (simp add: agree_def sameIdentity_refl keeps_refl)

lemma agree_trans: "agree W s s' \<Longrightarrow> agree W s' s'' \<Longrightarrow> agree W s s''"
  unfolding agree_def
  apply (elim conjE)
  apply (intro conjI)
           apply (erule (1) sameIdentity_trans)
          apply (erule (1) keeps_trans)+
  done

lemma modifies_then:
  assumes "modifies W K c" and "\<And>k. modifies W K (f k)"
    and "\<And>s. r s = f (fst (c s)) (snd (c s))"
  shows "modifies W K r"
  unfolding modifies_def
proof
  fix s
  let ?s1 = "snd (c s)"
  let ?s2 = "snd (f (fst (c s)) ?s1)"
  from assms(1) obtain e1 where 1: "agree W s ?s1" "events ?s1 = events s @ e1" "kind ` set e1 \<subseteq> K"
    unfolding modifies_def by blast
  from assms(2) [of "fst (c s)"] obtain e2 where 2: "agree W ?s1 ?s2" "events ?s2 = events ?s1 @ e2" "kind ` set e2 \<subseteq> K"
    unfolding modifies_def by blast
  have "events ?s2 = events s @ (e1 @ e2)" using 1(2) 2(2) by simp
  moreover have "kind ` set (e1 @ e2) \<subseteq> K" using 1(3) 2(3) by auto
  ultimately have "\<exists>evs. events ?s2 = events s @ evs \<and> kind ` set evs \<subseteq> K" by blast
  with agree_trans [OF 1(1) 2(1)]
  show "agree W s (snd (r s)) \<and> (\<exists>evs. events (snd (r s)) = events s @ evs \<and> kind ` set evs \<subseteq> K)"
    unfolding assms(3) by blast
qed

lemma modifies_same: "modifies W K (\<lambda>s. (k, s))"
  by (simp add: modifies_def agree_refl)

lemma modifies_Pair: "modifies W K (Pair k)"
  by (simp add: modifies_def agree_refl)

lemma modifies_skip: "modifies W K skip"
  unfolding skip_def by (rule modifies_same)

lemma modifies_throw: "modifies W K (throw e)"
  unfolding throw_def by (rule modifies_same)

lemma modifies_returns: "modifies W K (returns v)"
  unfolding returns_def by (rule modifies_same)

lemma modifies_block_Nil: "modifies W K (block [])"
  by (simp add: block.simps modifies_def agree_refl)

lemma modifies_block_Cons:
  assumes "modifies W K c" and "modifies W K (block cs)"
  shows "modifies W K (block (c # cs))"
proof (rule modifies_then [OF assms(1), where f = "\<lambda>k. if k = Normal then block cs else (\<lambda>s. (k, s))"])
  fix k show "modifies W K (if k = Normal then block cs else (\<lambda>s. (k, s)))"
    using assms(2) by (cases "k = Normal") (simp_all add: modifies_same modifies_Pair)
next
  fix s show "block (c # cs) s = (if fst (c s) = Normal then block cs else (\<lambda>s'. (fst (c s), s'))) (snd (c s))"
    by (cases "c s") (simp add: block.simps split: completion.splits)
qed

lemma modifies_block_map:
  assumes "\<And>x. x \<in> set xs \<Longrightarrow> modifies W K (f x)"
  shows "modifies W K (block (map f xs))"
  using assms
proof (induction xs)
  case Nil
  show ?case unfolding list.map by (rule modifies_block_Nil)
next
  case (Cons x xs)
  have "modifies W K (f x)" "modifies W K (block (map f xs))"
    using Cons by simp_all
  then show ?case unfolding list.map by (rule modifies_block_Cons)
qed

lemma modifies_tryCatch:
  assumes "modifies W K body" and "\<And>e. modifies W K (handler e)"
  shows "modifies W K (tryCatch body handler)"
proof (rule modifies_then [OF assms(1), where f = "\<lambda>k. case k of Throw e \<Rightarrow> handler e | _ \<Rightarrow> (\<lambda>s. (k, s))"])
  fix k show "modifies W K (case k of Throw e \<Rightarrow> handler e | _ \<Rightarrow> (\<lambda>s. (k, s)))"
    using assms(2) by (cases k) (simp_all add: modifies_same modifies_Pair)
next
  fix s show "tryCatch body handler s =
      (case fst (body s) of Throw e \<Rightarrow> handler e | _ \<Rightarrow> (\<lambda>s'. (fst (body s), s'))) (snd (body s))"
    by (cases "body s") (simp add: tryCatch_def split: completion.splits)
qed

lemma modifies_snd: "(\<And>s. snd (c s) = snd (d s)) \<Longrightarrow> modifies W K d \<Longrightarrow> modifies W K c"
  unfolding modifies_def by simp

lemma modifies_tryFinally:
  assumes "modifies W K body" and "modifies W K fin"
  shows "modifies W K (tryFinally body fin)"
proof (rule modifies_then [OF assms(1),
      where f = "\<lambda>k s'. case fin s' of (Normal, s'') \<Rightarrow> (k, s'') | (k', s'') \<Rightarrow> (k', s'')"])
  fix k :: "'a completion"
  show "modifies W K (\<lambda>s'. case fin s' of (Normal, s'') \<Rightarrow> (k, s'') | (k', s'') \<Rightarrow> (k', s''))"
    by (rule modifies_snd [OF _ assms(2)]) (simp split: prod.splits completion.splits)
next
  fix s
  show "tryFinally body fin s =
      (case fin (snd (body s)) of (Normal, s'') \<Rightarrow> (fst (body s), s'') | (k', s'') \<Rightarrow> (k', s''))"
    by (cases "body s") (auto simp: tryFinally_def split: prod.splits completion.splits)
qed

lemma snd_call: "snd (call m s) = snd (m s)"
  by (simp add: call_def split: prod.splits completion.splits)

lemma modifies_call:
  assumes "modifies W K m"
  shows "modifies W K (call m)"
  using assms unfolding modifies_def by (simp add: snd_call)

lemma modifies_callThen:
  assumes "modifies W K m" and "\<And>v. modifies W K (k v)"
  shows "modifies W K (callThen m d k)"
proof (rule modifies_then [OF assms(1), where f = "\<lambda>c. case c of Return v \<Rightarrow> k v | Normal \<Rightarrow> k d | Throw e \<Rightarrow> (\<lambda>s. (Throw e, s))"])
  fix c show "modifies W K (case c of Return v \<Rightarrow> k v | Normal \<Rightarrow> k d | Throw e \<Rightarrow> (\<lambda>s. (Throw e, s)))"
    using assms(2) by (cases c) (simp_all add: modifies_same modifies_Pair)
next
  fix s show "callThen m d k s =
      (case fst (m s) of Return v \<Rightarrow> k v | Normal \<Rightarrow> k d | Throw e \<Rightarrow> (\<lambda>s'. (Throw e, s'))) (snd (m s))"
    by (cases "m s") (simp add: callThen_def split: completion.splits)
qed

lemma modifies_ifSet: "modifies W K c \<Longrightarrow> modifies W K (ifSet cond c)"
  unfolding modifies_def ifSet_def by (simp add: agree_refl)

lemma modifies_withTask: "(\<And>t. modifies W K (f t)) \<Longrightarrow> modifies W K (withTask f)"
  unfolding modifies_def withTask_def by simp

lemma modifies_if:
  "(b \<Longrightarrow> modifies W K c) \<Longrightarrow> (\<not> b \<Longrightarrow> modifies W K d) \<Longrightarrow> modifies W K (if b then c else d)"
  by simp

lemma modifies_case_option:
  "(x = None \<Longrightarrow> modifies W K c) \<Longrightarrow> (\<And>v. x = Some v \<Longrightarrow> modifies W K (d v))
   \<Longrightarrow> modifies W K (case x of None \<Rightarrow> c | Some v \<Rightarrow> d v)"
  by (cases x) simp_all

lemma modifies_case_DbResult:
  "(\<And>e. modifies W K (a e)) \<Longrightarrow> (\<And>m. modifies W K (b m)) \<Longrightarrow> (\<And>v. modifies W K (c v))
   \<Longrightarrow> modifies W K (case x of Rejected e \<Rightarrow> a e | DbError m \<Rightarrow> b m | DbOk v \<Rightarrow> c v)"
  by (cases x) simp_all

lemma modifies_case_prod:
  "(\<And>a b. modifies W K (f a b)) \<Longrightarrow> modifies W K (case x of (a, b) \<Rightarrow> f a b)"
  by (cases x) simp

lemma recorded_fields [simp]:
  "task (recorded e s) = task s" "browser (recorded e s) = browser s"
  "browserContext (recorded e s) = browserContext s" "page (recorded e s) = page s"
  "cookieFiles (recorded e s) = cookieFiles s" "timer (recorded e s) = timer s"
  by (simp_all add: recorded_def split: option.split)

lemma recorded_events:
  "\<exists>ticks. events (recorded e s) = events s @ e # ticks \<and> kind ` set ticks \<subseteq> {KTick}
     \<and> (\<not> asynchronous e \<or> timer s = None \<longrightarrow> ticks = [])"
  by (auto simp: recorded_def split: option.split)


lemma recorded_kinds:
  assumes "kind e \<in> K" and "asynchronous e \<Longrightarrow> KTick \<in> K"
  shows "\<exists>evs. events (recorded e s) = events s @ evs \<and> kind ` set evs \<subseteq> K"
proof (cases "asynchronous e \<and> timer s \<noteq> None")
  case True
  then obtain fires where "timer s = Some fires" by auto
  with True have a: "events (recorded e s) = events s @ e # replicate (fires (length (events s))) (Tick (task s))"
    by (simp add: recorded_def)
  have b: "kind ` set (e # replicate (fires (length (events s))) (Tick (task s))) \<subseteq> K"
    using assms True by auto
  show ?thesis
    by (rule exI [of _ "e # replicate (fires (length (events s))) (Tick (task s))"]) (rule conjI [OF a b])
next
  case False
  then have a: "events (recorded e s) = events s @ [e]"
    by (auto simp: recorded_def split: option.split)
  have b: "kind ` set [e] \<subseteq> K" using assms(1) by simp
  show ?thesis by (rule exI [of _ "[e]"]) (rule conjI [OF a b])
qed

lemma agree_recorded: "agree W s (recorded e s)"
  unfolding agree_def by (intro conjI) (simp_all add: keeps_refl sameIdentity_refl)

lemma modifies_record_event:
  assumes "kind e \<in> K" and "asynchronous e \<Longrightarrow> KTick \<in> K"
  shows "modifies W K (record_event e)"
  unfolding modifies_def record_event_def assign_def snd_conv
  using recorded_kinds [OF assms] agree_recorded by (intro allI conjI)

lemma modifies_sleep: "KSleep \<in> K \<Longrightarrow> KTick \<in> K \<Longrightarrow> modifies W K (sleep ms)"
  unfolding sleep_def by (rule modifies_record_event) simp_all

lemma modifies_awaitQuietly: "KCall site \<in> K \<Longrightarrow> KTick \<in> K \<Longrightarrow> modifies W K (awaitQuietly site)"
  unfolding awaitQuietly_def by (rule modifies_record_event) simp_all

lemma modifies_await: "KCall site \<in> K \<Longrightarrow> KTick \<in> K \<Longrightarrow> modifies W K (await env site)"
  unfolding await_def
  by (intro modifies_block_Cons modifies_block_Nil modifies_record_event modifies_case_option
      modifies_skip modifies_throw) simp_all

lemma modifies_onTask:
  assumes "\<And>t. sameIdentity t (f t)"
    and "\<And>t. Steps \<in> W \<or> steps (f t) = steps t"
    and "\<And>t. Logs \<in> W \<or> logs (f t) = logs t"
    and "\<And>t. DebugLogs \<in> W \<or> debugLogs (f t) = debugLogs t"
    and "\<And>t. Screenshots \<in> W \<or> screenshots (f t) = screenshots t"
    and "\<And>t. ErrorMessages \<in> W \<or> errorMessages (f t) = errorMessages t"
    and "\<And>t. StatusField \<in> W \<or> status (f t) = status t"
    and "\<And>t. CompletedAt \<in> W \<or> completedAt (f t) = completedAt t"
  shows "modifies W K (onTask f)"
  unfolding modifies_def onTask_def assign_def agree_def
  using assms by (simp add: keeps_def)

lemma modifies_locals:
  assumes "Locals \<in> W"
    and "\<And>s. task (f s) = task s \<and> cookieFiles (f s) = cookieFiles s \<and> timer (f s) = timer s
            \<and> events (f s) = events s"
  shows "modifies W K (assign f)"
  unfolding modifies_def assign_def agree_def sameIdentity_def
  using assms by (simp add: keeps_def)

lemma modifies_timer:
  assumes "Timer \<in> W"
    and "\<And>s. task (f s) = task s \<and> cookieFiles (f s) = cookieFiles s \<and> events (f s) = events s
            \<and> browser (f s) = browser s \<and> browserContext (f s) = browserContext s \<and> page (f s) = page s"
  shows "modifies W K (assign f)"
  unfolding modifies_def assign_def agree_def sameIdentity_def
  using assms by (simp add: keeps_def)

lemma modifies_clearInterval: "Timer \<in> W \<Longrightarrow> modifies W K clearInterval"
  unfolding clearInterval_def by (rule modifies_timer) simp_all

lemma modifies_setInterval: "Timer \<in> W \<Longrightarrow> modifies W K (setInterval env)"
  unfolding setInterval_def by (rule modifies_timer) simp_all

lemma setStepStatus_ids:
  "map stepId (setStepStatus sid st xs) = map stepId xs"
  "map stepLabel (setStepStatus sid st xs) = map stepLabel xs"
  by (induction xs) simp_all

lemma modifies_forEachCallback: "KNotify \<in> K \<Longrightarrow> modifies W K (forEachCallback cbs i :: 'r stmt)"
proof (induction cbs arbitrary: i)
  case Nil
  have "forEachCallback [] i = Pair Normal" by (rule ext) simp
  then show ?case by (simp add: modifies_Pair)
next
  case (Cons cb cbs)
  let ?c = "\<lambda>s. ((case cb (task s) of Some e \<Rightarrow> Throw e | None \<Rightarrow> Normal) :: 'r completion,
                  s\<lparr>events := events s @ [Notify i (task s)]\<rparr>)"
  let ?f = "\<lambda>k :: 'r completion. case k of Normal \<Rightarrow> forEachCallback cbs (Suc i) | _ \<Rightarrow> Pair k"
  have c: "modifies W K ?c"
    unfolding modifies_def
  proof
    fix s :: State
    have "events (s\<lparr>events := events s @ [Notify i (task s)]\<rparr>) = events s @ [Notify i (task s)]"
      by simp
    moreover have "kind ` set [Notify i (task s)] \<subseteq> K" using Cons.prems by simp
    moreover have "agree W s (s\<lparr>events := events s @ [Notify i (task s)]\<rparr>)"
      by (simp add: agree_def sameIdentity_def keeps_refl)
    ultimately show "agree W s (snd (?c s)) \<and> (\<exists>evs. events (snd (?c s)) = events s @ evs \<and> kind ` set evs \<subseteq> K)"
      unfolding snd_conv by blast
  qed
  show ?case
  proof (rule modifies_then [OF c, where f = ?f])
    fix k show "modifies W K (?f k)"
      using Cons.IH [OF Cons.prems] by (cases k) (simp_all add: modifies_Pair)
  next
    fix s show "forEachCallback (cb # cbs) i s = ?f (fst (?c s)) (snd (?c s))"
      by (cases "cb (task s)") simp_all
  qed
qed

lemma modifies_notifyUpdate: "KNotify \<in> K \<Longrightarrow> modifies W K (notifyUpdate svc)"
  using modifies_forEachCallback [of K W] unfolding modifies_def notifyUpdate_def by blast

lemmas modifies_rules =
  modifies_block_Nil modifies_block_Cons modifies_block_map modifies_tryCatch modifies_tryFinally
  modifies_clearInterval modifies_setInterval modifies_call
  modifies_callThen modifies_ifSet modifies_withTask modifies_if modifies_case_option
  modifies_case_DbResult modifies_case_prod modifies_skip modifies_throw modifies_returns
  modifies_record_event modifies_sleep modifies_awaitQuietly modifies_await modifies_notifyUpdate

lemma modifies_addLog: "Logs \<in> W \<Longrightarrow> KNotify \<in> K \<Longrightarrow> modifies W K (addLog svc line)"
  unfolding addLog_def
  by (intro modifies_rules modifies_onTask) (simp_all add: sameIdentity_def)

lemma modifies_addDebugLog: "DebugLogs \<in> W \<Longrightarrow> modifies W K (addDebugLog svc line)"
  unfolding addDebugLog_def
  by (intro modifies_rules modifies_onTask) (simp_all add: sameIdentity_def)

lemma modifies_updateStep: "Steps \<in> W \<Longrightarrow> Logs \<in> W \<Longrightarrow> modifies W K (updateStep sid st line)"
  unfolding updateStep_def
  by (intro modifies_rules modifies_onTask) (simp_all add: sameIdentity_def setStepStatus_ids)

lemma modifies_setStatus: "StatusField \<in> W \<Longrightarrow> KStatusWrite \<in> K \<Longrightarrow> modifies W K (setStatus st)"
  unfolding setStatus_def
  by (intro modifies_rules modifies_onTask) (simp_all add: sameIdentity_def)

lemma modifies_setCompletedAt: "CompletedAt \<in> W \<Longrightarrow> modifies W K (setCompletedAt now)"
  unfolding setCompletedAt_def
  by (intro modifies_onTask) (simp_all add: sameIdentity_def)

lemma modifies_pushScreenshot: "Screenshots \<in> W \<Longrightarrow> modifies W K (pushScreenshot png)"
  unfolding pushScreenshot_def
  by (intro modifies_onTask) (simp_all add: sameIdentity_def)

lemma modifies_pushErrorMessage: "ErrorMessages \<in> W \<Longrightarrow> modifies W K (pushErrorMessage m)"
  unfolding pushErrorMessage_def
  by (intro modifies_onTask) (simp_all add: sameIdentity_def)

lemma modifies_closeSession:
  "KCall ClosePage \<in> K \<Longrightarrow> KCall CloseContext \<in> K \<Longrightarrow> KCall CloseBrowser \<in> K \<Longrightarrow> KTick \<in> K
   \<Longrightarrow> modifies W K closeSession"
  unfolding closeSession_def
  by (intro modifies_rules) simp_all

lemma block_single: "block [c] = c"
proof
  fix s show "block [c] s = c s"
    by (cases "c s") (simp add: block.simps split: completion.splits)
qed

lemma block_append:
  "block (xs @ ys) s = (case block xs s of (Normal, s') \<Rightarrow> block ys s' | (k, s') \<Rightarrow> (k, s'))"
proof (induction xs arbitrary: s)
  case Nil
  show ?case by (simp add: block.simps)
next
  case (Cons c xs)
  show ?case
    by (cases "c s") (simp add: block.simps Cons.IH split: completion.splits)
qed

lemma block_snoc:
  "block (xs @ [c]) s = (case block xs s of (Normal, s') \<Rightarrow> c s' | (k, s') \<Rightarrow> (k, s'))"
proof (cases "block xs s")
  case (Pair k s')
  then show ?thesis by (cases k) (simp_all add: block_append block_single)
qed

lemma pollMailbox_unfold:
  "pollMailbox svc env attempts =
     (if attempts < maxAttempts then
        block [
          withTask (\<lambda>t. record_event (GetMessages (email t))),
          (case findLink (messageDetails env attempts) (mailbox env attempts) of
             Some l \<Rightarrow> returns (Some l)
           | None \<Rightarrow>
               block [
                 addDebugLog svc (emoji_hourglass @ '' Attente email... ('' @ decimal (attempts + 1)
                                  @ ''/'' @ decimal maxAttempts @ '')''),
                 sleep 3000,
                 pollMailbox svc env (attempts + 1)])]
      else returns None)"
  (is "_ = (if _ then block [?get, ?rest] else _)")
proof
  fix s :: State
  let ?s1 = "recorded (GetMessages (email (task s))) s"
  let ?dbg = "addDebugLog svc (emoji_hourglass @ '' Attente email... ('' @ decimal (attempts + 1)
                                  @ ''/'' @ decimal maxAttempts @ '')'') :: (string option) stmt"
  have get: "?get s = (Normal, ?s1)"
    by (simp add: withTask_def record_event_def assign_def)
  show "pollMailbox svc env attempts s = (if attempts < maxAttempts then block [?get, ?rest] else returns None) s"
  proof (cases "attempts < maxAttempts")
    case False
    then show ?thesis by (subst pollMailbox.simps) (simp add: returns_def)
  next
    case True
    show ?thesis
    proof (cases "findLink (messageDetails env attempts) (mailbox env attempts)")
      case (Some l)
      with True show ?thesis
        by (subst pollMailbox.simps) (simp add: block.simps get returns_def)
    next
      case None
      have "block [?dbg, sleep 3000, pollMailbox svc env (attempts + 1)] ?s1 =
            (case block [?dbg, sleep 3000] ?s1 of
               (Normal, s2) \<Rightarrow> pollMailbox svc env (attempts + 1) s2 | (k, s2) \<Rightarrow> (k, s2))"
        using block_snoc [of "[?dbg, sleep 3000]" "pollMailbox svc env (attempts + 1)" ?s1] by simp
      with True None show ?thesis
        by (subst pollMailbox.simps) (simp add: block.simps(2) [of ?get] block_single get)
    qed
  qed
qed

lemma retryLoop_unfold:
  "retryLoop svc env attempt =
     (if attempt \<le> MAX_RETRIES then
        block [attemptRound svc env attempt, retryLoop svc env (attempt + 1)]
      else
        block [
          setStatus failed,
          setCompletedAt (completedClock env),
          addDebugLog svc (emoji_cross @ '' '' @ E_acute @ ''chec d'' @ e_acute @ ''finitif apr'' @ e_grave @ ''s ''
                           @ decimal MAX_RETRIES @ '' tentatives''),
          notifyUpdate svc])"
proof
  fix s :: State
  have "block [attemptRound svc env attempt, retryLoop svc env (attempt + 1)] s =
        (case attemptRound svc env attempt s of
           (Normal, s') \<Rightarrow> retryLoop svc env (attempt + 1) s' | (k, s') \<Rightarrow> (k, s'))"
    using block_snoc [of "[attemptRound svc env attempt]" "retryLoop svc env (attempt + 1)" s]
    by (simp add: block_single)
  then show "retryLoop svc env attempt s =
     (if attempt \<le> MAX_RETRIES then
        block [attemptRound svc env attempt, retryLoop svc env (attempt + 1)]
      else
        block [
          setStatus failed,
          setCompletedAt (completedClock env),
          addDebugLog svc (emoji_cross @ '' '' @ E_acute @ ''chec d'' @ e_acute @ ''finitif apr'' @ e_grave @ ''s ''
                           @ decimal MAX_RETRIES @ '' tentatives''),
          notifyUpdate svc]) s"
    by (subst retryLoop.simps) simp
qed

lemmas modifies_more =
  modifies_rules modifies_addLog modifies_addDebugLog modifies_updateStep modifies_setStatus
  modifies_setCompletedAt modifies_pushScreenshot modifies_pushErrorMessage modifies_closeSession

lemma modifies_loadCookies: "KRead \<in> K \<Longrightarrow> modifies W K (loadCookies env)"
  unfolding loadCookies_def
  by (intro modifies_more) simp_all

lemma modifies_saveCookies:
  "CookieFiles \<in> W \<Longrightarrow> KCall SessionCookies \<in> K \<Longrightarrow> KWrite \<in> K \<Longrightarrow> KTick \<in> K
   \<Longrightarrow> modifies W K (saveCookies env)"
  unfolding saveCookies_def
  apply (intro modifies_more)
      apply simp_all
  apply (simp add: modifies_def assign_def agree_def sameIdentity_def keeps_def)
  done

lemma modifies_solveCaptcha:
  "DebugLogs \<in> W \<Longrightarrow> KCall FindSitekey \<in> K \<Longrightarrow> KCall SolverRecaptcha \<in> K \<Longrightarrow> KTick \<in> K
   \<Longrightarrow> modifies W K (solveCaptcha svc env)"
  unfolding solveCaptcha_def
  by (intro modifies_more) simp_all

lemma modifies_injectCaptchaSolution:
  "DebugLogs \<in> W \<Longrightarrow> KCall InjectToken \<in> K \<Longrightarrow> KTick \<in> K \<Longrightarrow> modifies W K (injectCaptchaSolution svc env)"
  unfolding injectCaptchaSolution_def
  by (intro modifies_more) simp_all

lemma modifies_saveAccountToDatabase:
  "DebugLogs \<in> W \<Longrightarrow> Logs \<in> W \<Longrightarrow> KInsertAccount \<in> K \<Longrightarrow> KInsertCookies \<in> K \<Longrightarrow> KNotify \<in> K \<Longrightarrow> KTick \<in> K
   \<Longrightarrow> modifies W K (saveAccountToDatabase svc env cookies verified)"
  unfolding saveAccountToDatabase_def
  by (intro modifies_more) simp_all

lemma modifies_pollMailbox:
  assumes "DebugLogs \<in> W" and "KGetMessages \<in> K" and "KSleep \<in> K" and "KTick \<in> K"
  shows "modifies W K (pollMailbox svc env attempts)"
proof (induction "maxAttempts - attempts" arbitrary: attempts)
  case 0
  then show ?case
    by (subst pollMailbox_unfold) (simp add: modifies_returns)
next
  case (Suc n)
  then have "n = maxAttempts - (attempts + 1)" by simp
  from Suc.hyps(1) [OF this] have ih: "modifies W K (pollMailbox svc env (attempts + 1))" .
  show ?case
    apply (subst pollMailbox_unfold)
    apply (intro modifies_more ih)
    using assms by simp_all
qed

lemma modifies_verifyEmail:
  assumes "{Steps, Logs, DebugLogs} \<subseteq> W"
    and "- {KStatusWrite, KRead, KWrite, KCall ChromiumLaunch} \<subseteq> K"
  shows "modifies W K (verifyEmail svc env cookies)"
  unfolding verifyEmail_def
  by (intro modifies_more modifies_pollMailbox modifies_saveAccountToDatabase)
     (use assms in auto)

section \<open>Completions\<close>

lemma endsIn_mono: "endsIn S c \<Longrightarrow> S \<subseteq> S' \<Longrightarrow> endsIn S' c"
  unfolding endsIn_def by blast

lemma endsIn_skip: "Normal \<in> S \<Longrightarrow> endsIn S skip"
  by (simp add: endsIn_def skip_def)

lemma endsIn_assign: "Normal \<in> S \<Longrightarrow> endsIn S (assign f)"
  by (simp add: endsIn_def assign_def)

lemma endsIn_onTask: "Normal \<in> S \<Longrightarrow> endsIn S (onTask f)"
  by (simp add: onTask_def endsIn_assign)

lemma endsIn_record_event: "Normal \<in> S \<Longrightarrow> endsIn S (record_event e)"
  by (simp add: record_event_def endsIn_assign)

lemma endsIn_sleep: "Normal \<in> S \<Longrightarrow> endsIn S (sleep ms)"
  by (simp add: sleep_def endsIn_record_event)

lemma endsIn_awaitQuietly: "Normal \<in> S \<Longrightarrow> endsIn S (awaitQuietly site)"
  by (simp add: awaitQuietly_def endsIn_record_event)

lemma endsIn_returns: "Return v \<in> S \<Longrightarrow> endsIn S (returns v)"
  by (simp add: endsIn_def returns_def)

lemma endsIn_throw: "Throw e \<in> S \<Longrightarrow> endsIn S (throw e)"
  by (simp add: endsIn_def throw_def)

lemma endsIn_block_Nil: "Normal \<in> S \<Longrightarrow> endsIn S (block [])"
  by (simp add: endsIn_def block.simps)

lemma endsIn_block_single: "endsIn S c \<Longrightarrow> endsIn S (block [c])"
  by (simp add: block_single)

lemma endsIn_block_Cons:
  assumes "endsIn (insert Normal S) c" and "endsIn S (block (c' # cs))"
  shows "endsIn S (block (c # c' # cs))"
  unfolding endsIn_def
proof
  fix s
  obtain k s1 where c: "c s = (k, s1)" by (cases "c s")
  from assms(1) c have k: "k = Normal \<or> k \<in> S" unfolding endsIn_def by (metis fst_conv insertE)
  from assms(2) have "fst (block (c' # cs) s1) \<in> S" unfolding endsIn_def by blast
  with c k show "fst (block (c # c' # cs) s) \<in> S"
    by (cases k) (auto simp: block.simps(2) [of c])
qed

lemma endsIn_block_map:
  assumes "Normal \<in> S" and "\<And>x. x \<in> set xs \<Longrightarrow> endsIn S (f x)"
  shows "endsIn S (block (map f xs))"
  using assms(2)
proof (induction xs)
  case Nil
  show ?case unfolding list.map using assms(1) by (rule endsIn_block_Nil)
next
  case (Cons x xs)
  have 1: "endsIn S (f x)" and 2: "endsIn S (block (map f xs))" using Cons by simp_all
  show ?case unfolding list.map endsIn_def
  proof
    fix s
    obtain k s1 where c: "f x s = (k, s1)" by (cases "f x s")
    from 1 c have "k \<in> S" unfolding endsIn_def by (metis fst_conv)
    moreover from 2 have "fst (block (map f xs) s1) \<in> S" unfolding endsIn_def by blast
    ultimately show "fst (block (f x # map f xs) s) \<in> S"
      using c by (cases k) (auto simp: block.simps(2) [of "f x"])
  qed
qed

lemma endsIn_tryCatch:
  assumes "endsIn (S \<union> range Throw) body" and "\<And>e. endsIn S (handler e)"
  shows "endsIn S (tryCatch body handler)"
  unfolding endsIn_def
proof
  fix s
  obtain k s1 where b: "body s = (k, s1)" by (cases "body s")
  from assms(1) b have "k \<in> S \<or> k \<in> range Throw" unfolding endsIn_def by (metis fst_conv UnE)
  moreover have "fst (handler e s1) \<in> S" for e using assms(2) unfolding endsIn_def by blast
  ultimately show "fst (tryCatch body handler s) \<in> S"
    using b by (cases k) (auto simp: tryCatch_def)
qed

lemma endsIn_tryFinally:
  assumes "endsIn S body" and "endsIn (insert Normal S) fin"
  shows "endsIn S (tryFinally body fin)"
  unfolding endsIn_def
proof
  fix s
  obtain k s1 where b: "body s = (k, s1)" by (cases "body s")
  obtain k' s2 where f: "fin s1 = (k', s2)" by (cases "fin s1")
  from assms(1) b have "k \<in> S" unfolding endsIn_def by (metis fst_conv)
  moreover from assms(2) f have "k' \<in> insert Normal S" unfolding endsIn_def by (metis fst_conv)
  ultimately show "fst (tryFinally body fin s) \<in> S"
    by (cases k') (auto simp: tryFinally_def b f)
qed

lemma endsIn_clearInterval: "Normal \<in> S \<Longrightarrow> endsIn S clearInterval"
  by (simp add: clearInterval_def endsIn_assign)

lemma endsIn_setInterval: "Normal \<in> S \<Longrightarrow> endsIn S (setInterval env)"
  by (simp add: setInterval_def endsIn_assign)

lemma endsIn_call:
  assumes "Normal \<in> S" and "noThrow m \<or> range Throw \<subseteq> S"
  shows "endsIn S (call m)"
  unfolding endsIn_def
proof
  fix s
  obtain k s1 where m: "m s = (k, s1)" by (cases "m s")
  show "fst (call m s) \<in> S"
  proof (cases k)
    case (Throw e)
    with m assms(2) have "range Throw \<subseteq> S"
      unfolding noThrow_def endsIn_def by (metis ComplD fst_conv rangeI)
    with m Throw show ?thesis by (auto simp: call_def)
  qed (use m assms(1) in \<open>auto simp: call_def\<close>)
qed

lemma endsIn_callThen:
  assumes "noThrow m \<or> range Throw \<subseteq> S" and "\<And>v. endsIn S (k v)"
  shows "endsIn S (callThen m d k)"
  unfolding endsIn_def
proof
  fix s
  obtain c s1 where m: "m s = (c, s1)" by (cases "m s")
  have kk: "fst (k v s1) \<in> S" for v using assms(2) unfolding endsIn_def by blast
  show "fst (callThen m d k s) \<in> S"
  proof (cases c)
    case (Throw e)
    with m assms(1) have "range Throw \<subseteq> S"
      unfolding noThrow_def endsIn_def by (metis ComplD fst_conv rangeI)
    with m Throw show ?thesis by (auto simp: callThen_def)
  qed (use m kk in \<open>auto simp: callThen_def\<close>)
qed

lemma endsIn_ifSet: "Normal \<in> S \<Longrightarrow> endsIn S c \<Longrightarrow> endsIn S (ifSet cond c)"
  unfolding endsIn_def ifSet_def by simp

lemma endsIn_withTask: "(\<And>t. endsIn S (f t)) \<Longrightarrow> endsIn S (withTask f)"
  unfolding endsIn_def withTask_def by simp

lemma endsIn_if:
  "(b \<Longrightarrow> endsIn S c) \<Longrightarrow> (\<not> b \<Longrightarrow> endsIn S d) \<Longrightarrow> endsIn S (if b then c else d)"
  by simp

lemma endsIn_case_option:
  "(x = None \<Longrightarrow> endsIn S c) \<Longrightarrow> (\<And>v. x = Some v \<Longrightarrow> endsIn S (d v))
   \<Longrightarrow> endsIn S (case x of None \<Rightarrow> c | Some v \<Rightarrow> d v)"
  by (cases x) simp_all

lemma endsIn_case_DbResult:
  "(\<And>e. x = Rejected e \<Longrightarrow> endsIn S (a e)) \<Longrightarrow> (\<And>m. x = DbError m \<Longrightarrow> endsIn S (b m))
   \<Longrightarrow> (\<And>v. x = DbOk v \<Longrightarrow> endsIn S (c v))
   \<Longrightarrow> endsIn S (case x of Rejected e \<Rightarrow> a e | DbError m \<Rightarrow> b m | DbOk v \<Rightarrow> c v)"
  by (cases x) simp_all

lemma endsIn_case_prod:
  "(\<And>a b. endsIn S (f a b)) \<Longrightarrow> endsIn S (case x of (a, b) \<Rightarrow> f a b)"
  by (cases x) simp

lemma endsIn_await:
  "Normal \<in> S \<Longrightarrow> rejects env site = None \<or> range Throw \<subseteq> S \<Longrightarrow> endsIn S (await env site)"
  unfolding await_def endsIn_def
  by (cases "rejects env site")
     (auto simp: block.simps record_event_def assign_def skip_def throw_def)

lemma endsIn_forEachCallback:
  "Normal \<in> S \<Longrightarrow> (\<forall>cb \<in> set cbs. \<forall>t. cb t = None) \<or> range Throw \<subseteq> S
   \<Longrightarrow> endsIn S (forEachCallback cbs i)"
proof (induction cbs arbitrary: i)
  case Nil
  then show ?case by (simp add: endsIn_def)
next
  case (Cons cb cbs)
  from Cons.prems(2) have 2: "(\<forall>cb \<in> set cbs. \<forall>t. cb t = None) \<or> range Throw \<subseteq> S" by auto
  note ih = Cons.IH [OF Cons.prems(1) 2, unfolded endsIn_def, rule_format]
  show ?case unfolding endsIn_def
  proof
    fix s
    show "fst (forEachCallback (cb # cbs) i s) \<in> S"
    proof (cases "cb (task s)")
      case None
      then show ?thesis using ih by simp
    next
      case (Some e)
      with Cons.prems(2) have "range Throw \<subseteq> S" by auto
      with Some show ?thesis by auto
    qed
  qed
qed

lemma endsIn_notifyUpdate:
  "Normal \<in> S \<Longrightarrow> quietSubscribers svc \<or> range Throw \<subseteq> S \<Longrightarrow> endsIn S (notifyUpdate svc)"
  unfolding notifyUpdate_def
  using endsIn_forEachCallback [of S "callbacksOf svc tid" for tid] callbacksOf_quiet [of svc]
  unfolding endsIn_def by blast

lemmas endsIn_rules =
  endsIn_block_Nil endsIn_block_single endsIn_block_Cons endsIn_block_map endsIn_tryCatch
  endsIn_clearInterval endsIn_setInterval
  endsIn_ifSet endsIn_withTask endsIn_if endsIn_case_option endsIn_case_DbResult
  endsIn_case_prod endsIn_skip endsIn_assign endsIn_onTask endsIn_record_event endsIn_sleep
  endsIn_awaitQuietly endsIn_returns endsIn_throw

lemma endsIn_addLog:
  "Normal \<in> S \<Longrightarrow> quietSubscribers svc \<or> range Throw \<subseteq> S \<Longrightarrow> endsIn S (addLog svc line)"
  unfolding addLog_def
  by (intro endsIn_rules endsIn_notifyUpdate) simp_all

lemma endsIn_addDebugLog: "Normal \<in> S \<Longrightarrow> endsIn S (addDebugLog svc line)"
  unfolding addDebugLog_def
  by (intro endsIn_rules) simp_all

lemma endsIn_updateStep: "Normal \<in> S \<Longrightarrow> endsIn S (updateStep sid st line)"
  unfolding updateStep_def
  by (intro endsIn_rules) simp_all

lemma endsIn_setStatus: "Normal \<in> S \<Longrightarrow> endsIn S (setStatus st)"
  unfolding setStatus_def
  by (intro endsIn_rules) simp_all

lemma endsIn_setCompletedAt: "Normal \<in> S \<Longrightarrow> endsIn S (setCompletedAt now)"
  unfolding setCompletedAt_def by (rule endsIn_onTask)

lemma endsIn_pushScreenshot: "Normal \<in> S \<Longrightarrow> endsIn S (pushScreenshot png)"
  unfolding pushScreenshot_def by (rule endsIn_onTask)

lemma endsIn_pushErrorMessage: "Normal \<in> S \<Longrightarrow> endsIn S (pushErrorMessage m)"
  unfolding pushErrorMessage_def by (rule endsIn_onTask)

lemma endsIn_closeSession: "Normal \<in> S \<Longrightarrow> endsIn S closeSession"
  unfolding closeSession_def
  by (intro endsIn_rules) simp_all

lemmas endsIn_more =
  endsIn_rules endsIn_addDebugLog endsIn_updateStep endsIn_setStatus endsIn_setCompletedAt
  endsIn_pushScreenshot endsIn_pushErrorMessage endsIn_closeSession

section \<open>The functions of the service\<close>

lemma endsIn_UNIV: "endsIn UNIV c"
  by (simp add: endsIn_def)



text \<open>Frames.\<close>

lemma modifies_openSession:
  assumes "{Steps, Logs, DebugLogs, Locals} \<subseteq> W"
    and "- {KStatusWrite, KWrite, KInsertAccount, KInsertCookies} \<subseteq> K"
  shows "modifies W K (openSession svc env n)"
  unfolding openSession_def
  by (intro modifies_more modifies_loadCookies modifies_locals) (use assms in auto)

lemma modifies_loadSignupPage:
  assumes "{Steps, Logs, DebugLogs, Screenshots} \<subseteq> W"
    and "- {KStatusWrite, KRead, KWrite, KInsertAccount, KInsertCookies, KCall ChromiumLaunch} \<subseteq> K"
  shows "modifies W K (loadSignupPage svc env)"
  unfolding loadSignupPage_def
  by (intro modifies_more) (use assms in auto)

lemma modifies_fillForm:
  assumes "{Steps, Logs, DebugLogs, Screenshots} \<subseteq> W"
    and "- {KStatusWrite, KRead, KWrite, KInsertAccount, KInsertCookies, KCall ChromiumLaunch} \<subseteq> K"
  shows "modifies W K (fillForm svc env)"
  unfolding fillForm_def
  by (intro modifies_more) (use assms in auto)

lemma modifies_submitForm:
  assumes "{Steps, Logs, DebugLogs, Screenshots} \<subseteq> W"
    and "- {KStatusWrite, KRead, KWrite, KInsertAccount, KInsertCookies, KCall ChromiumLaunch} \<subseteq> K"
  shows "modifies W K (submitForm svc env)"
  unfolding submitForm_def
  by (intro modifies_more) (use assms in auto)

lemma modifies_resolveCaptcha:
  assumes "{Steps, Logs, DebugLogs, ErrorMessages, CookieFiles} \<subseteq> W"
    and "- {KStatusWrite, KRead, KCall ChromiumLaunch} \<subseteq> K"
  shows "modifies W K (resolveCaptcha svc env)"
  unfolding resolveCaptcha_def
  by (intro modifies_more modifies_solveCaptcha modifies_injectCaptchaSolution modifies_saveCookies
      modifies_verifyEmail) (use assms in auto)

lemma modifies_classify:
  assumes "{Steps, Logs, DebugLogs, ErrorMessages, CookieFiles} \<subseteq> W"
    and "- {KStatusWrite, KRead, KCall ChromiumLaunch} \<subseteq> K"
  shows "modifies W K (classify svc env)"
  unfolding classify_def
  by (intro modifies_more modifies_resolveCaptcha modifies_verifyEmail) (use assms in auto)

lemma modifies_attemptSignup:
  assumes "{Steps, Logs, DebugLogs, Screenshots, ErrorMessages, Locals, CookieFiles} \<subseteq> W"
    and "- {KStatusWrite} \<subseteq> K"
  shows "modifies W K (attemptSignup svc env n)"
  unfolding attemptSignup_def
  by (intro modifies_more modifies_openSession modifies_loadSignupPage modifies_fillForm
      modifies_submitForm modifies_classify modifies_locals) (use assms in auto)

lemma modifies_retryReset:
  assumes "{Steps, DebugLogs, ErrorMessages, Screenshots} \<subseteq> W" and "{KNotify, KSleep, KTick} \<subseteq> K"
  shows "modifies W K (retryReset svc env attempt)"
  unfolding retryReset_def
  by (intro modifies_more modifies_onTask)
     (use assms in \<open>auto simp: sameIdentity_def resetFailedSteps_def comp_def\<close>)

lemma modifies_afterAttempt:
  assumes "{StatusField, CompletedAt, Timer} \<subseteq> W" and "{KStatusWrite, KNotify} \<subseteq> K"
  shows "modifies W K (afterAttempt svc env success)"
  unfolding afterAttempt_def
  by (intro modifies_more) (use assms in auto)

lemma modifies_attemptRound: "modifies UNIV UNIV (attemptRound svc env attempt)"
  unfolding attemptRound_def
  by (intro modifies_more modifies_retryReset modifies_attemptSignup modifies_afterAttempt) auto

lemma modifies_retryLoop: "modifies UNIV UNIV (retryLoop svc env attempt)"
proof (induction "Suc MAX_RETRIES - attempt" arbitrary: attempt)
  case 0
  then show ?case
    by (subst retryLoop_unfold) (auto intro!: modifies_more)
next
  case (Suc n)
  then have "n = Suc MAX_RETRIES - (attempt + 1)" by simp
  from Suc.hyps(1) [OF this] have ih: "modifies UNIV UNIV (retryLoop svc env (Suc attempt))" by simp
  show ?case
    by (subst retryLoop_unfold) (auto intro!: modifies_more modifies_attemptRound ih)
qed

lemma modifies_runAutomation: "modifies UNIV UNIV (runAutomation svc env tid)"
  unfolding runAutomation_def
  by (intro modifies_more modifies_retryLoop) auto

lemma modifies_fatalHandler: "modifies UNIV UNIV (fatalHandler svc env message)"
  unfolding fatalHandler_def
  by (intro modifies_more) auto

text \<open>Completions.\<close>

lemma noThrow_loadCookies: "noThrow (loadCookies env)"
  unfolding noThrow_def loadCookies_def
  by (intro endsIn_tryCatch endsIn_returns endsIn_UNIV [THEN endsIn_mono]) auto

lemma noThrow_saveCookies: "noThrow (saveCookies env)"
  unfolding noThrow_def saveCookies_def
  by (intro endsIn_tryCatch endsIn_skip endsIn_UNIV [THEN endsIn_mono]) auto

lemma noThrow_solveCaptcha: "noThrow (solveCaptcha svc env)"
  unfolding noThrow_def solveCaptcha_def
  by (intro endsIn_if endsIn_tryCatch endsIn_block_Cons endsIn_block_single endsIn_addDebugLog
      endsIn_returns endsIn_UNIV [THEN endsIn_mono]) auto

lemma noThrow_injectCaptchaSolution: "noThrow (injectCaptchaSolution svc env)"
  unfolding noThrow_def injectCaptchaSolution_def
  by (intro endsIn_tryCatch endsIn_addDebugLog endsIn_UNIV [THEN endsIn_mono]) auto

lemma noThrow_saveAccountToDatabase:
  "quietSubscribers svc \<Longrightarrow> noThrow (saveAccountToDatabase svc env cookies verified)"
  unfolding noThrow_def saveAccountToDatabase_def
  by (intro endsIn_tryCatch endsIn_addLog endsIn_UNIV [THEN endsIn_mono]) auto

lemma noThrow_pollMailbox: "noThrow (pollMailbox svc env attempts)"
proof (induction "maxAttempts - attempts" arbitrary: attempts)
  case 0
  then show ?case
    unfolding noThrow_def by (subst pollMailbox_unfold) (auto intro!: endsIn_returns)
next
  case (Suc n)
  then have "n = maxAttempts - (attempts + 1)" by simp
  from Suc.hyps(1) [OF this] have ih: "endsIn (- range Throw) (pollMailbox svc env (attempts + 1))"
    unfolding noThrow_def .
  show ?case
    unfolding noThrow_def
    apply (subst pollMailbox_unfold)
    apply (intro endsIn_more ih)
    by auto
qed

lemma noThrow_verifyEmail:
  assumes "quietSubscribers svc"
    and "rejects env CatchCloseContext = None" and "rejects env CatchCloseBrowser = None"
  shows "noThrow (verifyEmail svc env cookies)"
  unfolding noThrow_def verifyEmail_def
  apply (rule endsIn_tryCatch)
   apply (rule endsIn_UNIV [THEN endsIn_mono])
   apply simp
  apply (intro endsIn_more endsIn_addLog endsIn_call endsIn_await
      noThrow_saveAccountToDatabase [OF assms(1)] disjI1 assms)
       apply auto
  done



lemma noThrow_retryReset: "quietSubscribers svc \<Longrightarrow> noThrow (retryReset svc env attempt)"
  unfolding noThrow_def retryReset_def
  by (intro endsIn_more endsIn_notifyUpdate disjI1) auto

section \<open>Counting events\<close>




lemma silent_block_Cons:
  assumes "silent k c" and "silent k (block cs)"
  shows "silent k (block (c # cs))"
  unfolding silent_def
proof
  fix s
  obtain r s1 where c: "c s = (r, s1)" by (cases "c s")
  from assms(1) c have 1: "ofKind k (events s1) = ofKind k (events s)"
    unfolding silent_def by (metis snd_conv)
  from assms(2) have 2: "ofKind k (events (snd (block cs s1))) = ofKind k (events s1)"
    unfolding silent_def by blast
  from c 1 2 show "ofKind k (events (snd (block (c # cs) s))) = ofKind k (events s)"
    by (cases r) (simp_all add: block.simps(2) [of c])
qed






lemma once_call: "once k m \<Longrightarrow> once k (call m)"
  unfolding once_def by (simp add: snd_call)

lemma silent_call: "silent k m \<Longrightarrow> silent k (call m)"
  unfolding silent_def by (simp add: snd_call)

section \<open>One attempt and its place in the loop\<close>


lemma quiet_tasks [simp]: "quietSubscribers (svc\<lparr>tasks := m\<rparr>) = quietSubscribers svc"
  by (simp add: quietSubscribers_def)

lemma callbacksOf_tasks [simp]: "callbacksOf (svc\<lparr>tasks := m\<rparr>) = callbacksOf svc"
  by (rule ext) (simp add: callbacksOf_def)

lemma notifications_tasks [simp]: "notifications (svc\<lparr>tasks := m\<rparr>) = notifications svc"
  by (rule ext) (simp add: notifications_def)

lemma notifyUpdate_notifications:
  "quietSubscribers svc \<Longrightarrow>
   notifyUpdate svc s = (Normal, s\<lparr>events := events s @ notifications svc (task s)\<rparr>)"
  by (simp add: notifyUpdate_quiet notifications_def)

lemma kind_notifications: "kind ` set (notifications svc t) \<subseteq> {KNotify}"
  by (auto simp: notifications_def)











lemma ofKind_append [simp]: "ofKind k (xs @ ys) = ofKind k xs @ ofKind k ys"
  by (simp add: ofKind_def)

lemma ofKind_none: "kind ` set evs \<subseteq> K \<Longrightarrow> k \<notin> K \<Longrightarrow> ofKind k evs = []"
  unfolding ofKind_def by (induction evs) auto












section \<open>The claims\<close>














text \<open>
  Claim C8, as amended.  Attempt \<open>k > 1\<close> of the loop starts from the state the reset
  leaves.  When no subscriber throws and the draw of \<open>Math.random()\<close> lies in \<open>[0, 1)\<close>,
  the reset completes, and in that state: every step that was failed is pending and every
  other step is as it was (a completed step stays completed); \<open>errorMessages\<close> and
  \<open>screenshots\<close> are empty; \<open>debugLogs\<close> holds the lines it held that contain one of
  the six bootstrap markers, followed in debug mode by the two lines the reset itself
  wrote; the subscribers have been called once, before the pause; the pause awaited is the
  one drawn, at least 5000 ms and less than 13000 ms long.  The id, provider, email,
  password, logs, creation time, status and completion time of the task are as they were.
\<close>

theorem C8_retry_reset:
  assumes "quietSubscribers svc" and "1 < k" and "k \<le> MAX_RETRIES"
    and "0 \<le> backoffRandom env k" and "backoffRandom env k < 1"
  shows "\<exists>s1 ticks written.
       retryLoop svc env k s = block [attemptRound svc env k, retryLoop svc env (k + 1)] s
     \<and> attemptRound svc env k s
         = callThen (attemptSignup svc (attemptEnv env k) k) False (afterAttempt svc env) s1
     \<and> retryReset svc env k s = (Normal, s1)
     \<and> steps (task s1) =
         map (\<lambda>step. if stepStatus step = failed then step\<lparr>stepStatus := pending\<rparr> else step) (steps (task s))
     \<and> errorMessages (task s1) = [] \<and> screenshots (task s1) = []
     \<and> written =
         (if debugMode svc
          then [newline @ emoji_arrows @ '' Tentative '' @ decimal k @ ''/'' @ decimal MAX_RETRIES,
                emoji_hourglass @ '' Pause de ''
                  @ decimal (randomDelay (backoffRandom env k) 8000 5000 div 1000) @ ''s...'']
          else [])
     \<and> debugLogs (task s1) = filter bootstrapLine (debugLogs (task s)) @ written
     \<and> events s1 =
         events s
         @ notifications svc ((task s)\<lparr>
             steps := map (\<lambda>step. if stepStatus step = failed then step\<lparr>stepStatus := pending\<rparr> else step)
                        (steps (task s)),
             debugLogs := debugLogs (task s) @ written\<rparr>)
         @ Sleep (randomDelay (backoffRandom env k) 8000 5000) # ticks
     \<and> kind ` set ticks \<subseteq> {KTick}
     \<and> 5000 \<le> randomDelay (backoffRandom env k) 8000 5000
     \<and> randomDelay (backoffRandom env k) 8000 5000 < 13000
     \<and> taskId (task s1) = taskId (task s) \<and> provider (task s1) = provider (task s)
     \<and> email (task s1) = email (task s) \<and> password (task s1) = password (task s)
     \<and> logs (task s1) = logs (task s) \<and> createdAt (task s1) = createdAt (task s)
     \<and> status (task s1) = status (task s) \<and> completedAt (task s1) = completedAt (task s)"
proof -
  let ?d = "randomDelay (backoffRandom env k) 8000 5000"
  let ?l1 = "newline @ emoji_arrows @ '' Tentative '' @ decimal k @ ''/'' @ decimal MAX_RETRIES"
  let ?l2 = "emoji_hourglass @ '' Pause de '' @ decimal (?d div 1000) @ ''s...''"
  let ?reset = "map (\<lambda>step. if stepStatus step = failed then step\<lparr>stepStatus := pending\<rparr> else step)
                  (steps (task s))"
  define written where "written = (if debugMode svc then [?l1, ?l2] else [])"
  define tN where "tN = (task s)\<lparr>steps := ?reset, debugLogs := debugLogs (task s) @ written\<rparr>"
  define sB where "sB = s\<lparr>task := tN, events := events s @ notifications svc tN\<rparr>"
  define sC where "sC = recorded (Sleep ?d) sB"
  define s1 where "s1 = sC\<lparr>task := tN\<lparr>errorMessages := [], screenshots := [],
                                      debugLogs := filter bootstrapLine (debugLogs tN)\<rparr>\<rparr>"
  have b: "5000 \<le> ?d \<and> ?d < 13000"
    using randomDelay_bounds [OF assms(4,5), of 5000 8000] by simp
  have run: "retryReset svc env k s = (Normal, s1)"
    by (cases "debugMode svc")
       (simp_all add: block.simps retryReset_def addDebugLog_def onTask_def assign_def skip_def
          sleep_def record_event_def notifyUpdate_notifications [OF assms(1)] resetFailedSteps_def
          s1_def sC_def sB_def tN_def written_def)
  from recorded_events [of "Sleep ?d" sB] obtain ticks where
    t: "events sC = events sB @ Sleep ?d # ticks" "kind ` set ticks \<subseteq> {KTick}"
    unfolding sC_def by blast
  have kept: "filter bootstrapLine written = written"
    unfolding written_def using bootstrap_attempt_line bootstrap_pause_line by simp
  have round: "attemptRound svc env k s
         = callThen (attemptSignup svc (attemptEnv env k) k) False (afterAttempt svc env) s1"
    unfolding attemptRound_def using assms(2)
    by (simp add: block.simps(2) [of "retryReset svc env k"] run block_single)
  have loop: "retryLoop svc env k s = block [attemptRound svc env k, retryLoop svc env (k + 1)] s"
    using assms(3) by (subst retryLoop_unfold) simp
  have ev: "events s1 = events s @ notifications svc tN @ Sleep ?d # ticks"
    using t(1) by (simp add: s1_def sB_def)
  have logs: "debugLogs (task s1) = filter bootstrapLine (debugLogs (task s)) @ written"
    by (simp add: s1_def tN_def kept)
  show ?thesis
    apply (rule exI [of _ s1], rule exI [of _ ticks], rule exI [of _ written])
    apply (intro conjI)
                      apply (rule loop)
                      apply (rule round)
                      apply (rule run)
                      apply (simp add: s1_def tN_def)
                      apply (simp add: s1_def)
                      apply (simp add: s1_def)
                     apply (rule written_def)
                    apply (rule logs)
                   apply (rule ev [unfolded tN_def])
                  apply (rule t(2))
                 apply (rule conjunct1 [OF b])
                apply (rule conjunct2 [OF b])
               apply (simp_all add: s1_def sC_def tN_def)
    done
qed

lemma quiet_debug: "quietSubscribers debugService"
  by (simp add: quietSubscribers_def debugService_def setDebugMode_def watchedService_def
      onTaskUpdate_def newService_def)

lemma half_done_kept:
  "filter bootstrapLine (debugLogs (task halfDoneState))
     = [emoji_rocket @ '' D'' @ e_acute @ ''marrage de l'automatisation Replit'']"
  by (simp add: halfDoneState_def newState_def bootstrapLine_def)

theorem C8_retry_reset_witness:
  "debugLogs (task halfDoneState)
     = [emoji_rocket @ '' D'' @ e_acute @ ''marrage de l'automatisation Replit'',
        emoji_check @ '' Page charg'' @ e_acute @ ''e'']
   \<and> debugLogs (task (snd ((retryReset debugService (exampleRunEnv (\<lambda>k. takenEnv)) 2 :: unit stmt) halfDoneState)))
     = [emoji_rocket @ '' D'' @ e_acute @ ''marrage de l'automatisation Replit'',
        newline @ emoji_arrows @ '' Tentative 2/3'',
        emoji_hourglass @ '' Pause de 9s...'']
   \<and> screenshots (task halfDoneState) = [''data:image/png;base64,iVBORw0KGgo='']
   \<and> screenshots (task (snd ((retryReset debugService (exampleRunEnv (\<lambda>k. takenEnv)) 2 :: unit stmt) halfDoneState))) = []
   \<and> errorMessages (task (snd ((retryReset debugService (exampleRunEnv (\<lambda>k. takenEnv)) 2 :: unit stmt) halfDoneState))) = []
   \<and> ofKind KSleep (events (snd ((retryReset debugService (exampleRunEnv (\<lambda>k. takenEnv)) 2 :: unit stmt) halfDoneState)))
     = [Sleep 9000]
   \<and> length (ofKind KNotify (events (snd ((retryReset debugService (exampleRunEnv (\<lambda>k. takenEnv)) 2 :: unit stmt) halfDoneState))))
     = 1"
proof -
  let ?env = "exampleRunEnv (\<lambda>k. takenEnv)"
  have r: "0 \<le> backoffRandom ?env 2" "backoffRandom ?env 2 < 1"
    by (simp_all add: exampleRunEnv_def)
  have k: "(1::nat) < 2" "2 \<le> MAX_RETRIES" by (simp_all add: MAX_RETRIES_def)
  have d: "randomDelay (backoffRandom ?env 2) 8000 5000 = 9000"
    by (simp add: exampleRunEnv_def randomDelay_def)
  have dbg: "debugMode debugService"
    by (simp add: debugService_def setDebugMode_def)
  from C8_retry_reset [OF quiet_debug k r, of halfDoneState]
  obtain s1 ticks written where
    run: "(retryReset debugService ?env 2 :: unit stmt) halfDoneState = (Normal, s1)"
    and clear: "errorMessages (task s1) = []" "screenshots (task s1) = []"
    and written: "written =
         (if debugMode debugService
          then [newline @ emoji_arrows @ '' Tentative '' @ decimal 2 @ ''/'' @ decimal MAX_RETRIES,
                emoji_hourglass @ '' Pause de ''
                  @ decimal (randomDelay (backoffRandom ?env 2) 8000 5000 div 1000) @ ''s...'']
          else [])"
    and logs: "debugLogs (task s1) = filter bootstrapLine (debugLogs (task halfDoneState)) @ written"
    and ev: "events s1 =
         events halfDoneState
         @ notifications debugService ((task halfDoneState)\<lparr>
             steps := map (\<lambda>step. if stepStatus step = failed then step\<lparr>stepStatus := pending\<rparr> else step)
                        (steps (task halfDoneState)),
             debugLogs := debugLogs (task halfDoneState) @ written\<rparr>)
         @ Sleep (randomDelay (backoffRandom ?env 2) 8000 5000) # ticks"
    and ticks: "kind ` set ticks \<subseteq> {KTick}"
    by blast
  have s1: "snd ((retryReset debugService ?env 2 :: unit stmt) halfDoneState) = s1"
    by (simp only: run snd_conv)
  have w: "written = [newline @ emoji_arrows @ '' Tentative 2/3'', emoji_hourglass @ '' Pause de 9s...'']"
    unfolding written d using dbg by (simp add: decimal_digit MAX_RETRIES_def)
  have n: "notifications debugService t = [Notify 0 t]" if "taskId t = ''t1''" for t
    using that by (simp add: notifications_def callbacksOf_def debugService_def setDebugMode_def
        watchedService_def onTaskUpdate_def newService_def)
  have tid: "taskId (task halfDoneState) = ''t1''"
    by (simp add: halfDoneState_def newState_def exampleTask_def newTask_def)
  have e0: "events halfDoneState = []"
    by (simp add: halfDoneState_def newState_def)
  have sleeps: "ofKind KSleep (events s1) = [Sleep 9000]"
    unfolding ev d e0 using ofKind_none [OF ticks, of KSleep] by (simp add: n tid) (simp add: ofKind_def)
  have calls: "length (ofKind KNotify (events s1)) = 1"
    unfolding ev d e0 using ofKind_none [OF ticks, of KNotify] by (simp add: n tid) (simp add: ofKind_def)
  have before: "debugLogs (task halfDoneState)
     = [emoji_rocket @ '' D'' @ e_acute @ ''marrage de l'automatisation Replit'',
        emoji_check @ '' Page charg'' @ e_acute @ ''e'']"
    "screenshots (task halfDoneState) = [''data:image/png;base64,iVBORw0KGgo='']"
    by (simp_all add: halfDoneState_def newState_def)
  from before clear sleeps calls logs show ?thesis
    unfolding s1 half_done_kept w by simp
qed

text \<open>
  The claim as stated has the default policy reset all steps.  The code resets the failed
  ones only: after an attempt that completed \<open>load\<close> and \<open>form\<close> and failed at \<open>submit\<close>,
  the reset leaves \<open>load\<close> and \<open>form\<close> completed.
\<close>

theorem C8_counterexample:
  "map stepStatus (steps (task halfDoneState)) = [completed, completed, failed, pending, pending]
   \<and> map stepStatus (steps (task (snd ((retryReset debugService (exampleRunEnv (\<lambda>k. takenEnv)) 2 :: unit stmt)
         halfDoneState)))) = [completed, completed, pending, pending, pending]"
proof -
  have "steps (task (snd ((retryReset debugService (exampleRunEnv (\<lambda>k. takenEnv)) 2 :: unit stmt) halfDoneState)))
          = resetFailedSteps (steps (task halfDoneState))"
    by (simp add: block.simps retryReset_def addDebugLog_def onTask_def assign_def skip_def sleep_def
        record_event_def notifyUpdate_notifications [OF quiet_debug])
  then show ?thesis
    by (simp add: resetFailedSteps_def halfDoneState_def exampleTask_def newState_def newTask_def)
qed

end
